theory Spec2Isabelle
  imports Main
begin

text \<open>
  A model of the orchestration core of the OpenLens browser extension: the permission
  store and guard, the LLM gateway with its fallback tool-call parser, the tool dispatch,
  the tool-call loop, plan-step execution, the cross-origin monitor and the sensitivity
  classifier. State is passed explicitly, everything outside the background script is a
  component of a \<open>World\<close>, and a thrown exception is a value. The definitions come
  first; the properties of the specification follow, each under the number of its claim.
\<close>

section \<open>Permission store (src/lib/permissions.ts)\<close>

text \<open>
  The types of \<^verbatim>\<open>modules/types.ts\<close>. Times are milliseconds since the epoch
  (\<^verbatim>\<open>Date.now()\<close>), tab identifiers are the browser's integers, and
  \<^verbatim>\<open>expiresAt: number | null\<close> is an option.
\<close>

datatype PermissionType = page_read | data_send | page_action

datatype PermissionScope = page | site | session

record Permission =
  p_type :: PermissionType
  p_scope :: PermissionScope
  p_origin :: string
  p_tabId :: int
  p_grantedAt :: nat
  p_expiresAt :: "nat option"

text \<open>
  \<^verbatim>\<open>p.expiresAt && p.expiresAt < now\<close>: a null expiry is falsy, and so is the number 0.
\<close>

definition expired :: "nat \<Rightarrow> Permission \<Rightarrow> bool" where
  "expired now p = (case p_expiresAt p of None \<Rightarrow> False | Some e \<Rightarrow> e \<noteq> 0 \<and> e < now)"

definition covers :: "PermissionType \<Rightarrow> string \<Rightarrow> int \<Rightarrow> nat \<Rightarrow> Permission \<Rightarrow> bool" where
  "covers ty orig tab now p =
     (if p_type p \<noteq> ty then False
      else if expired now p then False
      else (case p_scope p of
              page \<Rightarrow> p_tabId p = tab \<and> p_origin p = orig
            | site \<Rightarrow> p_origin p = orig
            | session \<Rightarrow> True))"

definition checkPermission ::
  "PermissionType \<Rightarrow> string \<Rightarrow> int \<Rightarrow> nat \<Rightarrow> Permission list \<Rightarrow> Permission option" where
  "checkPermission ty orig tab now permissions = find (covers ty orig tab now) permissions"

definition sameTriple :: "PermissionType \<Rightarrow> string \<Rightarrow> int \<Rightarrow> Permission \<Rightarrow> bool" where
  "sameTriple ty orig tab p = (p_type p = ty \<and> p_origin p = orig \<and> p_tabId p = tab)"

definition newPermission ::
  "PermissionType \<Rightarrow> PermissionScope \<Rightarrow> string \<Rightarrow> int \<Rightarrow> nat \<Rightarrow> Permission" where
  "newPermission ty sc orig tab now =
     \<lparr> p_type = ty, p_scope = sc, p_origin = orig, p_tabId = tab, p_grantedAt = now,
       p_expiresAt = (if sc = page then None else Some (now + 30 * 60 * 1000)) \<rparr>"

text \<open>
  \<^verbatim>\<open>grantPermission\<close> loads the stored list, drops every entry of the same
  type, origin and tab, pushes the new permission and saves the list. The model takes the
  stored list and returns the list that is saved.
\<close>

definition grantPermission ::
  "PermissionType \<Rightarrow> PermissionScope \<Rightarrow> string \<Rightarrow> int \<Rightarrow> nat \<Rightarrow> Permission list \<Rightarrow> Permission list" where
  "grantPermission ty sc orig tab now permissions =
     filter (\<lambda>p. \<not> sameTriple ty orig tab p) permissions @ [newPermission ty sc orig tab now]"

definition revokePermission ::
  "PermissionType \<Rightarrow> string \<Rightarrow> int \<Rightarrow> Permission list \<Rightarrow> Permission list" where
  "revokePermission ty orig tab permissions = filter (\<lambda>p. \<not> sameTriple ty orig tab p) permissions"

definition revokeAllForTab :: "int \<Rightarrow> Permission list \<Rightarrow> Permission list" where
  "revokeAllForTab tab permissions = filter (\<lambda>p. p_tabId p \<noteq> tab) permissions"

definition revokePagePermissions :: "int \<Rightarrow> Permission list \<Rightarrow> Permission list" where
  "revokePagePermissions tab permissions =
     filter (\<lambda>p. \<not> (p_scope p = page \<and> p_tabId p = tab)) permissions"

definition getActivePermissions :: "int option \<Rightarrow> nat \<Rightarrow> Permission list \<Rightarrow> Permission list" where
  "getActivePermissions tab now permissions =
     filter (\<lambda>p. if expired now p then False
                 else if tab \<noteq> None \<and> Some (p_tabId p) \<noteq> tab then False
                 else True) permissions"

section \<open>JavaScript values\<close>

text \<open>
  Tool arguments, tool results and audit details are untyped JavaScript objects in the
  source. They are modelled as JSON values; \<^verbatim>\<open>undefined\<close> is \<open>None\<close> of an
  option. Numbers are integers (token counts, limits).
\<close>

datatype json =
    JNull
  | JBool bool
  | JNum int
  | JStr string
  | JArr "json list"
  | JObj "(string \<times> json) list"

fun truthy :: "json \<Rightarrow> bool" where
  "truthy JNull = False"
| "truthy (JBool b) = b"
| "truthy (JNum n) = (n \<noteq> 0)"
| "truthy (JStr s) = (s \<noteq> [])"
| "truthy (JArr xs) = True"
| "truthy (JObj kvs) = True"

text \<open>Reading a property: \<^verbatim>\<open>v?.k\<close>, undefined when \<open>v\<close> has no such property.\<close>

fun field :: "json option \<Rightarrow> string \<Rightarrow> json option" where
  "field (Some (JObj kvs)) k = map_of kvs k"
| "field v k = None"

definition truthyOpt :: "json option \<Rightarrow> bool" where
  "truthyOpt v = (case v of None \<Rightarrow> False | Some j \<Rightarrow> truthy j)"

text \<open>\<^verbatim>\<open>a || b\<close> on a possibly undefined value.\<close>

definition orElse :: "json option \<Rightarrow> json \<Rightarrow> json" where
  "orElse v d = (case v of None \<Rightarrow> d | Some j \<Rightarrow> if truthy j then j else d)"

section \<open>Session state of the background script (src/entrypoints/background.ts)\<close>

datatype ProviderType = ollama | openai | anthropic | openrouter

datatype Sensitivity = low | medium | high

record DataEntry =
  de_origin :: string
  de_originType :: string
  de_dataType :: string
  de_tokenCount :: nat
  de_sensitivity :: Sensitivity
  de_entryMethod :: string
  de_timestamp :: nat

record AuditEvent =
  ae_type :: string
  ae_origin :: string
  ae_detail :: "(string \<times> json) list"
  ae_userAction :: "string option"
  ae_tokensInvolved :: "nat option"
  ae_processingLocation :: string
  ae_timestamp :: nat

record ToolCallRecord =
  tc_toolName :: string
  tc_args :: json
  tc_result :: string
  tc_iteration :: nat
  tc_timestamp :: nat

record ToolCallState =
  running :: bool
  calls :: "ToolCallRecord list"
  finalAnswer :: string
  error :: "string option"

text \<open>Messages the background script sends to the content host with \<^verbatim>\<open>sendToTab\<close>.\<close>

datatype tab_msg =
    READ_PAGE json
  | FIND_ON_PAGE json
  | CLICK_ELEMENT json
  | FILL_FORM json
  | SHOW_PERMISSION_DIALOG PermissionType string string

record ChatMessage =
  role :: string
  content :: string

text \<open>
  A tool schema as sent to the backend (\<^verbatim>\<open>OllamaToolSchema\<close> of tool-schemas.ts):
  the name, the description and the \<^verbatim>\<open>parameters.properties\<close> object.
\<close>

record ToolSchema =
  ts_name :: string
  ts_description :: string
  ts_properties :: json

text \<open>
  A step of a plan and the plan (\<^verbatim>\<open>TaskStep\<close>, \<^verbatim>\<open>TaskPlan\<close>). Optional fields are
  options; the permission a step requires is one of the three capability types, as
  \<^verbatim>\<open>generatePlan\<close> and \<^verbatim>\<open>createFallbackPlan\<close> build it; of the page context only
  the URL is used by the functions modelled here.
\<close>

record TaskStep =
  step_id :: nat
  step_title :: string
  step_description :: string
  step_tool :: string
  step_toolParams :: "json option"
  step_requiredPermission :: PermissionType
  step_status :: string
  step_result :: "json option"
  step_llmOutput :: "string option"
  step_isWriteAction :: bool
  step_tokens :: nat
  step_origin :: "string option"
  step_sensitivity :: "Sensitivity option"

record TaskPlan =
  plan_intent :: string
  plan_steps :: "TaskStep list"
  plan_status :: string
  plan_pageUrl :: "string option"

text \<open>
  The mutable globals of the background script (\<^verbatim>\<open>llmConfig\<close>,
  \<^verbatim>\<open>sessionState\<close>, \<^verbatim>\<open>toolCallState\<close>, \<^verbatim>\<open>currentPlan\<close>), the stored
  permission list, and
  logs of what the script has sent out: \<open>tabLog\<close> the messages to the content host,
  \<open>tabsCreated\<close> the URLs opened with \<^verbatim>\<open>chrome.tabs.create\<close>, \<open>mcpLog\<close> the
  \<^verbatim>\<open>tools/call\<close> requests to MCP servers (server URL, tool name, arguments),
  \<open>chatLog\<close> the invocations of \<^verbatim>\<open>llmChat\<close> (messages and the tool schemas
  passed) and \<open>fetchLog\<close> the HTTP requests to the LLM backend (messages and the
  tools of the request body, empty when the body has no \<^verbatim>\<open>tools\<close> field). The identifiers drawn with
  \<^verbatim>\<open>Math.random\<close> and the broadcasts of \<^verbatim>\<open>syncState\<close> and
  \<^verbatim>\<open>broadcastToolUpdate\<close> to the user interface are left out.
\<close>

record State =
  provider :: ProviderType
  model :: string
  permissions :: "Permission list"
  dataEntries :: "DataEntry list"
  auditEvents :: "AuditEvent list"
  totalTokens :: nat
  contextUsed :: nat
  processingLocation :: string
  toolCallState :: ToolCallState
  currentPlan :: "TaskPlan option"
  tabLog :: "tab_msg list"
  tabsCreated :: "json list"
  mcpLog :: "(string \<times> string \<times> json) list"
  chatLog :: "(ChatMessage list \<times> ToolSchema list) list"
  fetchLog :: "(ChatMessage list \<times> ToolSchema list) list"

text \<open>
  What the decision surface of the content host (\<^verbatim>\<open>showPermissionDialog\<close> in
  content.ts) answers: it resolves to \<^verbatim>\<open>{granted, scope}\<close> with one of the three
  scopes, the message may resolve to nothing, or sending it may fail.
\<close>

datatype dialog_reply =
    DialogThrows string
  | DialogUndefined
  | DialogResult bool PermissionScope

datatype 'a reply = Throws string | Returns 'a

record HttpBody =
  msg_content :: string
  msg_tool_calls :: "json list"

datatype http_reply =
    NetworkError string
  | Response nat "HttpBody option"

record McpTool =
  mt_name :: string
  mt_description :: string
  mt_serverName :: string
  mt_properties :: "json option"

record McpServer =
  srv_name :: string
  srv_url :: string
  srv_enabled :: bool
  srv_tools :: "McpTool list"

text \<open>
  Everything outside the script: the clock, the content host (indexed by the number of
  messages sent before), \<^verbatim>\<open>chrome.tabs.get\<close> (\<open>None\<close> when there is no such tab,
  \<open>Some None\<close> for a tab without a URL), the platform's URL parser
  (\<^verbatim>\<open>new URL(u).hostname\<close>, \<open>None\<close> when it throws), the LLM backend (indexed by
  the number of requests sent before), the platform's \<^verbatim>\<open>JSON.stringify\<close> and
  \<^verbatim>\<open>JSON.parse\<close> (\<open>None\<close> when it throws), \<^verbatim>\<open>String(v)\<close> on a value that
  is not a string, the stored MCP servers and the
  text an MCP server answers to a \<^verbatim>\<open>tools/call\<close> request (indexed by the number of
  requests sent before; \<open>Throws\<close> for a transport failure or an error result). The clock does not advance during one operation.
\<close>

record World =
  clock :: nat
  dialog :: "nat \<Rightarrow> PermissionType \<Rightarrow> string \<Rightarrow> string \<Rightarrow> dialog_reply"
  contentHost :: "nat \<Rightarrow> tab_msg \<Rightarrow> json option reply"
  tabsGet :: "int \<Rightarrow> string option option"
  hostname :: "string \<Rightarrow> string option"
  backend :: "nat \<Rightarrow> ChatMessage list \<Rightarrow> ToolSchema list \<Rightarrow> http_reply"
  stringify :: "json \<Rightarrow> string"
  parseJSON :: "string \<Rightarrow> json option"
  toString :: "json \<Rightarrow> string"
  mcpServers :: "McpServer list"
  mcpCall :: "nat \<Rightarrow> string \<Rightarrow> string \<Rightarrow> json \<Rightarrow> string reply"

definition permTypeName :: "PermissionType \<Rightarrow> string" where
  "permTypeName t = (case t of page_read \<Rightarrow> ''page_read'' | data_send \<Rightarrow> ''data_send''
                      | page_action \<Rightarrow> ''page_action'')"

definition scopeName :: "PermissionScope \<Rightarrow> string" where
  "scopeName s = (case s of page \<Rightarrow> ''page'' | site \<Rightarrow> ''site'' | session \<Rightarrow> ''session'')"

definition providerName :: "ProviderType \<Rightarrow> string" where
  "providerName p = (case p of ollama \<Rightarrow> ''ollama'' | openai \<Rightarrow> ''openai''
                      | anthropic \<Rightarrow> ''anthropic'' | openrouter \<Rightarrow> ''openrouter'')"

definition mkEvent ::
  "string \<Rightarrow> string \<Rightarrow> (string \<times> json) list \<Rightarrow> string option \<Rightarrow> nat option \<Rightarrow> string \<Rightarrow> AuditEvent" where
  "mkEvent ty orig detail ua toks loc =
     \<lparr> ae_type = ty, ae_origin = orig, ae_detail = detail, ae_userAction = ua,
       ae_tokensInvolved = toks, ae_processingLocation = loc, ae_timestamp = 0 \<rparr>"

definition addAuditEvent :: "World \<Rightarrow> AuditEvent \<Rightarrow> State \<Rightarrow> State" where
  "addAuditEvent w ev st = st\<lparr> auditEvents := auditEvents st @ [ev\<lparr> ae_timestamp := clock w \<rparr>] \<rparr>"

definition addDataEntry :: "World \<Rightarrow> DataEntry \<Rightarrow> State \<Rightarrow> State" where
  "addDataEntry w entry st =
     st\<lparr> dataEntries := dataEntries st @ [entry\<lparr> de_timestamp := clock w \<rparr>],
         totalTokens := totalTokens st + de_tokenCount entry,
         contextUsed := contextUsed st + de_tokenCount entry \<rparr>"

definition mkEntry :: "string \<Rightarrow> string \<Rightarrow> string \<Rightarrow> nat \<Rightarrow> Sensitivity \<Rightarrow> string \<Rightarrow> DataEntry" where
  "mkEntry orig otype dtype toks sens method =
     \<lparr> de_origin = orig, de_originType = otype, de_dataType = dtype, de_tokenCount = toks,
       de_sensitivity = sens, de_entryMethod = method, de_timestamp = 0 \<rparr>"

section \<open>Permission enforcement\<close>

definition locationOf :: "State \<Rightarrow> string" where
  "locationOf st = (if provider st = ollama then ''local'' else ''cloud'')"

definition ensurePermission ::
  "World \<Rightarrow> int \<Rightarrow> PermissionType \<Rightarrow> string \<Rightarrow> string \<Rightarrow> string \<Rightarrow> State \<Rightarrow> bool \<times> State" where
  "ensurePermission w tabId permType orig reason sensitivity st =
     (case checkPermission permType orig tabId (clock w) (permissions st) of
        Some existing \<Rightarrow> (True, st)
      | None \<Rightarrow>
          let isLocal = (provider st = ollama); loc = locationOf st in
          if isLocal \<and> permType = page_read then
            (True,
             addAuditEvent w
               (mkEvent ''permission_granted'' orig
                  [(''permType'', JStr (permTypeName permType)), (''scope'', JStr ''session''),
                   (''autoGranted'', JBool True),
                   (''reason'', JStr ''Local processing - data stays on device'')]
                  (Some ''auto'') None loc)
               (st\<lparr> permissions := grantPermission permType session orig tabId (clock w) (permissions st) \<rparr>))
          else
            let st1 = addAuditEvent w
                        (mkEvent ''permission_requested'' orig
                           [(''permType'', JStr (permTypeName permType)), (''reason'', JStr reason),
                            (''sensitivity'', JStr sensitivity)]
                           None None loc) st;
                answer = dialog w (length (tabLog st1)) permType reason sensitivity;
                st2 = st1\<lparr> tabLog := tabLog st1 @ [SHOW_PERMISSION_DIALOG permType reason sensitivity] \<rparr>
            in (case answer of
                  DialogResult True sc \<Rightarrow>
                    (True,
                     addAuditEvent w
                       (mkEvent ''permission_granted'' orig
                          [(''permType'', JStr (permTypeName permType)), (''scope'', JStr (scopeName sc))]
                          (Some ''approved'') None loc)
                       (st2\<lparr> permissions := grantPermission permType sc orig tabId (clock w) (permissions st2) \<rparr>))
                | DialogResult False sc \<Rightarrow>
                    (False,
                     addAuditEvent w
                       (mkEvent ''permission_denied'' orig
                          [(''permType'', JStr (permTypeName permType))]
                          (Some ''denied'') None loc) st2)
                | DialogUndefined \<Rightarrow>
                    (False,
                     addAuditEvent w
                       (mkEvent ''permission_denied'' orig
                          [(''permType'', JStr (permTypeName permType))]
                          (Some ''denied'') None loc) st2)
                | DialogThrows err \<Rightarrow>
                    if isLocal \<and> permType = page_action then
                      (True,
                       addAuditEvent w
                         (mkEvent ''permission_granted'' orig
                            [(''permType'', JStr (permTypeName permType)), (''scope'', JStr ''page''),
                             (''autoGranted'', JBool True),
                             (''reason'', JStr ''Dialog unavailable, local provider'')]
                            None None loc)
                         (st2\<lparr> permissions := grantPermission permType page orig tabId (clock w) (permissions st2) \<rparr>))
                    else (False, st2)))"

section \<open>Strings\<close>

fun startsWith :: "string \<Rightarrow> string \<Rightarrow> bool" where
  "startsWith s [] = True"
| "startsWith [] (p # ps) = False"
| "startsWith (c # cs) (p # ps) = (c = p \<and> startsWith cs ps)"

text \<open>\<^verbatim>\<open>s.indexOf(pat)\<close> searched from position \<open>i\<close> on; \<open>None\<close> stands for -1.\<close>

fun indexOfFrom :: "string \<Rightarrow> string \<Rightarrow> nat \<Rightarrow> nat option" where
  "indexOfFrom pat [] i = (if pat = [] then Some i else None)"
| "indexOfFrom pat (c # cs) i =
     (if startsWith (c # cs) pat then Some i else indexOfFrom pat cs (Suc i))"

definition indexOf :: "string \<Rightarrow> string \<Rightarrow> nat option" where
  "indexOf s pat = indexOfFrom pat s 0"

definition includesStr :: "string \<Rightarrow> string \<Rightarrow> bool" where
  "includesStr s pat = (indexOf s pat \<noteq> None)"

definition slice :: "string \<Rightarrow> nat \<Rightarrow> nat \<Rightarrow> string" where
  "slice s i j = take (j - i) (drop i s)"

fun join :: "string \<Rightarrow> string list \<Rightarrow> string" where
  "join sep [] = []"
| "join sep [x] = x"
| "join sep (x # y # ys) = x @ sep @ join sep (y # ys)"

definition isSpace :: "char \<Rightarrow> bool" where
  "isSpace c = (c \<in> {CHR 0x09, CHR 0x0A, CHR 0x0B, CHR 0x0C, CHR 0x0D, CHR 0x20, CHR 0xA0})"

definition trim :: "string \<Rightarrow> string" where
  "trim s = rev (dropWhile isSpace (rev (dropWhile isSpace s)))"

definition digit :: "nat \<Rightarrow> char" where
  "digit d = (''0123456789'' ! d)"

function showNat :: "nat \<Rightarrow> string" where
  "showNat n = (if n < 10 then [digit n] else showNat (n div 10) @ [digit (n mod 10)])"
  by pat_completeness auto
termination
  by (relation "measure id") auto

declare showNat.simps [simp del]

text \<open>\<^verbatim>\<open>Math.ceil(n / 4)\<close>.\<close>

definition ceilDiv4 :: "nat \<Rightarrow> nat" where
  "ceilDiv4 n = (n + 3) div 4"

definition jsString :: "World \<Rightarrow> json \<Rightarrow> string" where
  "jsString w v = (case v of JStr s \<Rightarrow> s | _ \<Rightarrow> toString w v)"

section \<open>LLM gateway\<close>

record ChatResult =
  cr_content :: string
  cr_processingLocation :: string
  cr_toolCalls :: "json list option"

text \<open>The marker token of an embedded tool call: an opening brace and the quoted word tool.\<close>

definition toolMarker :: string where
  "toolMarker = [CHR ''{'', CHR 0x22, CHR ''t'', CHR ''o'', CHR ''o'', CHR ''l'', CHR 0x22]"

text \<open>
  The scan of the reply from the marker on: \<open>ci\<close> is the index of the head of the
  remaining text, \<open>depth\<close> the nesting depth so far. It returns the index after the
  closing brace that brings the depth back to zero, \<open>None\<close> (for -1) when the text ends
  first.
\<close>

fun scanBraces :: "string \<Rightarrow> nat \<Rightarrow> int \<Rightarrow> nat option" where
  "scanBraces [] ci depth = None"
| "scanBraces (c # cs) ci depth =
     (let d1 = (if c = CHR ''{'' then depth + 1 else depth) in
      if c = CHR ''}'' then
        (if d1 - 1 = 0 then Some (ci + 1) else scanBraces cs (Suc ci) (d1 - 1))
      else scanBraces cs (Suc ci) d1)"

definition mkToolCall :: "json \<Rightarrow> json \<Rightarrow> json" where
  "mkToolCall nm arguments = JObj [(''function'', JObj [(''name'', nm), (''arguments'', arguments)])]"

text \<open>
  The parser that \<^verbatim>\<open>llmChat\<close> inlines twice (after the fallback request, and on a
  normal reply without native tool calls). Every exception inside it, the one of
  \<^verbatim>\<open>JSON.parse\<close> included, is caught by the surrounding \<^verbatim>\<open>try\<close>; \<open>None\<close>
  means that the reply text is returned as content.
\<close>

definition parseToolCall :: "World \<Rightarrow> string \<Rightarrow> json list option" where
  "parseToolCall w text =
     (case indexOf text toolMarker of
        None \<Rightarrow> None
      | Some startIdx \<Rightarrow>
          (case scanBraces (drop startIdx text) startIdx 0 of
             None \<Rightarrow> None
           | Some endIdx \<Rightarrow>
               if endIdx > startIdx then
                 (case parseJSON w (slice text startIdx endIdx) of
                    None \<Rightarrow> None
                  | Some parsed \<Rightarrow>
                      (case field (Some parsed) ''tool'' of
                         None \<Rightarrow> None
                       | Some t \<Rightarrow>
                           if truthy t
                           then Some [mkToolCall t (orElse (field (Some parsed) ''args'') (JObj []))]
                           else None))
               else None))"

text \<open>The catalog line of one tool: its name, its description and its serialized parameters.\<close>

definition toolLine :: "World \<Rightarrow> ToolSchema \<Rightarrow> string" where
  "toolLine w t = ''- '' @ ts_name t @ '': '' @ ts_description t @ '' (params: ''
                  @ stringify w (ts_properties t) @ '')''"

definition toolDescriptions :: "World \<Rightarrow> ToolSchema list \<Rightarrow> string" where
  "toolDescriptions w tools = join [CHR 0x0A] (map (toolLine w) tools)"

definition toolCallExample :: string where
  \<open>toolCallExample = ''{"tool": "tool_name", "args": {"param": "value"}}''\<close>

text \<open>
  The instructions appended to a system message in the fallback request (the dashes of
  the source text are written as hyphens).
\<close>

definition toolInstructions :: "bool \<Rightarrow> string \<Rightarrow> string" where
  "toolInstructions hasPageContent descriptions =
     (if hasPageContent then
        [CHR 0x0A, CHR 0x0A]
        @ ''You already have the page content above. Answer the user's question directly using that content. Do NOT call read_page - you already have it.''
        @ [CHR 0x0A, CHR 0x0A]
        @ ''If you need OTHER tools (not read_page), respond with ONLY a JSON object like:''
        @ [CHR 0x0A] @ toolCallExample @ [CHR 0x0A, CHR 0x0A]
        @ ''Available tools:'' @ [CHR 0x0A] @ descriptions @ [CHR 0x0A, CHR 0x0A]
        @ ''IMPORTANT: Answer directly using the page content provided above. Only use a tool JSON if you need something OTHER than page content.''
      else
        [CHR 0x0A, CHR 0x0A]
        @ ''You have access to tools. To call a tool, you MUST respond with ONLY a JSON object like this:''
        @ [CHR 0x0A] @ toolCallExample @ [CHR 0x0A, CHR 0x0A]
        @ ''Do NOT ask the user for information. Do NOT say you need data. Just call the appropriate tool.''
        @ [CHR 0x0A, CHR 0x0A]
        @ ''Available tools:'' @ [CHR 0x0A] @ descriptions @ [CHR 0x0A, CHR 0x0A]
        @ ''IMPORTANT: If the user asks about a web page, call read_page first. Always respond with a tool call JSON when you need information.'')"

definition fallbackMessage :: "string \<Rightarrow> ChatMessage \<Rightarrow> ChatMessage" where
  "fallbackMessage descriptions m =
     (if role m = ''system''
      then m\<lparr> content := content m
               @ toolInstructions (includesStr (content m) ''Current page content:'') descriptions \<rparr>
      else m)"

definition isOk :: "nat \<Rightarrow> bool" where
  "isOk status = (200 \<le> status \<and> status \<le> 299)"

definition sendChat :: "World \<Rightarrow> ChatMessage list \<Rightarrow> ToolSchema list \<Rightarrow> State \<Rightarrow> http_reply \<times> State" where
  "sendChat w messages tools st =
     (backend w (length (fetchLog st)) messages tools,
      st\<lparr> fetchLog := fetchLog st @ [(messages, tools)] \<rparr>)"

definition textResult :: "string \<Rightarrow> string \<Rightarrow> ChatResult" where
  "textResult text loc = \<lparr> cr_content = text, cr_processingLocation = loc, cr_toolCalls = None \<rparr>"

definition callsResult :: "string \<Rightarrow> json list \<Rightarrow> ChatResult" where
  "callsResult text tcs = \<lparr> cr_content = text, cr_processingLocation = ''local'', cr_toolCalls = Some tcs \<rparr>"

definition parsedOrText :: "World \<Rightarrow> string \<Rightarrow> ChatResult" where
  "parsedOrText w text =
     (case parseToolCall w text of
        Some tcs \<Rightarrow> callsResult [] tcs
      | None \<Rightarrow> textResult text ''local'')"

text \<open>
  \<^verbatim>\<open>llmChat\<close> for the ollama provider. A rejected \<^verbatim>\<open>fetch\<close> and a body that is not
  JSON throw; the thrown value is kept as its text.
\<close>

definition ollamaChat ::
  "World \<Rightarrow> ChatMessage list \<Rightarrow> ToolSchema list \<Rightarrow> State \<Rightarrow> (string + ChatResult) \<times> State" where
  "ollamaChat w messages tools st =
     (case sendChat w messages tools st of
        (NetworkError e, st1) \<Rightarrow> (Inl e, st1)
      | (Response status body, st1) \<Rightarrow>
          if \<not> isOk status \<and> status = 400 \<and> tools \<noteq> [] then
            (case sendChat w (map (fallbackMessage (toolDescriptions w tools)) messages) [] st1 of
               (NetworkError e, st2) \<Rightarrow> (Inl e, st2)
             | (Response status2 body2, st2) \<Rightarrow>
                 if \<not> isOk status2 then (Inl (''Error: Ollama error: '' @ showNat status2), st2)
                 else (case body2 of
                         None \<Rightarrow> (Inl ''SyntaxError: response body is not JSON'', st2)
                       | Some data \<Rightarrow> (Inr (parsedOrText w (msg_content data)), st2)))
          else if \<not> isOk status then (Inl (''Error: Ollama error: '' @ showNat status), st1)
          else (case body of
                  None \<Rightarrow> (Inl ''SyntaxError: response body is not JSON'', st1)
                | Some data \<Rightarrow>
                    if msg_tool_calls data \<noteq> []
                    then (Inr (callsResult (msg_content data) (msg_tool_calls data)), st1)
                    else if tools \<noteq> [] then (Inr (parsedOrText w (msg_content data)), st1)
                    else (Inr (textResult (msg_content data) ''local''), st1)))"

text \<open>
  The hosted providers get the messages only (the anthropic branch sends the system
  message in a field of its own); the reply's text is the content.
\<close>

definition cloudChat ::
  "string \<Rightarrow> World \<Rightarrow> ChatMessage list \<Rightarrow> State \<Rightarrow> (string + ChatResult) \<times> State" where
  "cloudChat label w messages st =
     (case sendChat w messages [] st of
        (NetworkError e, st1) \<Rightarrow> (Inl e, st1)
      | (Response status body, st1) \<Rightarrow>
          if \<not> isOk status then (Inl (''Error: '' @ label @ '' error: '' @ showNat status), st1)
          else (case body of
                  None \<Rightarrow> (Inl ''SyntaxError: response body is not JSON'', st1)
                | Some data \<Rightarrow> (Inr (textResult (msg_content data) ''cloud''), st1)))"

definition llmChat ::
  "World \<Rightarrow> ChatMessage list \<Rightarrow> ToolSchema list \<Rightarrow> State \<Rightarrow> (string + ChatResult) \<times> State" where
  "llmChat w messages tools st =
     (let st0 = st\<lparr> chatLog := chatLog st @ [(messages, tools)] \<rparr> in
      case provider st0 of
        ollama \<Rightarrow> ollamaChat w messages tools st0
      | openai \<Rightarrow> cloudChat ''OpenAI'' w messages st0
      | anthropic \<Rightarrow> cloudChat ''Anthropic'' w messages st0
      | openrouter \<Rightarrow> cloudChat ''OpenRouter'' w messages st0)"

section \<open>Tool registry (src/agent/page-tools.ts, src/agent/tool-schemas.ts)\<close>

record PageTool =
  pt_name :: string
  pt_description :: string
  requiredPermission :: PermissionType
  isWriteAction :: bool

definition mkTool :: "string \<Rightarrow> string \<Rightarrow> PermissionType \<Rightarrow> bool \<Rightarrow> string \<times> PageTool" where
  "mkTool n d p wr = (n, \<lparr> pt_name = n, pt_description = d, requiredPermission = p, isWriteAction = wr \<rparr>)"

definition PAGE_TOOLS :: "(string \<times> PageTool) list" where
  "PAGE_TOOLS =
     [mkTool ''read_page'' ''Extract and summarize the current page content'' page_read False,
      mkTool ''extract_data''
        ''Extract structured data (prices, links, forms, headings) from the page'' page_read False,
      mkTool ''find_on_page'' ''Search for specific text on the page'' page_read False,
      mkTool ''navigate'' ''Open a URL in a new tab'' page_action True,
      mkTool ''fill_form'' ''Fill form fields (user must submit manually)'' page_action True,
      mkTool ''click_element'' ''Click a link or button by selector or text'' page_action True]"

text \<open>
  \<^verbatim>\<open>PAGE_TOOLS[toolName]\<close>, for the six names the object declares. The names that
  JavaScript also finds on the prototype of the object (such as \<^verbatim>\<open>constructor\<close>)
  are left out: the source takes such a name for a built-in tool with no declared
  permission and answers that it is an unknown built-in tool, while here it is a name
  that no built-in tool has.
\<close>

definition getToolDef :: "string \<Rightarrow> PageTool option" where
  "getToolDef toolName = map_of PAGE_TOOLS toolName"

definition paramSchema :: "string \<Rightarrow> string \<Rightarrow> string \<Rightarrow> json" where
  "paramSchema k ty d = JObj [(k, JObj [(''type'', JStr ty), (''description'', JStr d)])]"

definition TOOL_PARAM_SCHEMAS :: "(string \<times> json) list" where
  "TOOL_PARAM_SCHEMAS =
     [(''read_page'', paramSchema ''max_tokens'' ''number'' ''Maximum tokens to extract (default 2000)''),
      (''extract_data'', paramSchema ''data_type'' ''string''
          ''Type of data to extract: prices, links, forms, or headings''),
      (''find_on_page'', paramSchema ''query'' ''string'' ''Text to search for on the page''),
      (''navigate'', paramSchema ''url'' ''string'' ''URL to open in a new tab''),
      (''fill_form'', paramSchema ''fields'' ''string'' ''JSON object of field name to value pairs''),
      (''click_element'', paramSchema ''selector'' ''string''
          ''CSS selector or visible text of the element to click'')]"

definition getBuiltInToolSchemas :: "ToolSchema list" where
  "getBuiltInToolSchemas =
     map (\<lambda>(n, t). \<lparr> ts_name = pt_name t, ts_description = pt_description t,
                     ts_properties = (case map_of TOOL_PARAM_SCHEMAS (pt_name t) of
                                        Some ps \<Rightarrow> ps | None \<Rightarrow> JObj []) \<rparr>) PAGE_TOOLS"

definition getMcpToolSchemas :: "McpTool list \<Rightarrow> ToolSchema list" where
  "getMcpToolSchemas mcpTools =
     map (\<lambda>t. \<lparr> ts_name = mt_name t,
                ts_description = ''['' @ mt_serverName t @ ''] '' @ mt_description t,
                ts_properties = orElse (mt_properties t) (JObj []) \<rparr>) mcpTools"

definition getAllToolSchemas :: "McpTool list \<Rightarrow> ToolSchema list" where
  "getAllToolSchemas mcpTools = getBuiltInToolSchemas @ getMcpToolSchemas mcpTools"

definition getAllMcpTools :: "World \<Rightarrow> McpTool list" where
  "getAllMcpTools w = concat (map srv_tools (filter srv_enabled (mcpServers w)))"

section \<open>Tool dispatch\<close>

definition sendToTab :: "World \<Rightarrow> tab_msg \<Rightarrow> State \<Rightarrow> json option reply \<times> State" where
  "sendToTab w msg st =
     (contentHost w (length (tabLog st)) msg, st\<lparr> tabLog := tabLog st @ [msg] \<rparr>)"

definition failure :: "string \<Rightarrow> json" where
  "failure msg = JObj [(''success'', JBool False), (''error'', JStr msg)]"

text \<open>The origin for the permission check: the tab's hostname, \<open>unknown\<close> when it has none.\<close>

definition tabOrigin :: "World \<Rightarrow> int \<Rightarrow> string" where
  "tabOrigin w tabId =
     (case tabsGet w tabId of
        Some (Some url) \<Rightarrow>
          if url \<noteq> [] then (case hostname w url of Some h \<Rightarrow> h | None \<Rightarrow> ''unknown'')
          else ''unknown''
      | _ \<Rightarrow> ''unknown'')"

text \<open>
  \<^verbatim>\<open>callMcpTool\<close> of the MCP client: the \<^verbatim>\<open>tools/call\<close> request is sent, and the
  text of the answer is wrapped as a successful result.
\<close>

definition callMcpTool :: "World \<Rightarrow> string \<Rightarrow> string \<Rightarrow> json \<Rightarrow> State \<Rightarrow> json option reply \<times> State" where
  "callMcpTool w serverUrl toolName args st =
     (let st1 = st\<lparr> mcpLog := mcpLog st @ [(serverUrl, toolName, args)] \<rparr> in
      case mcpCall w (length (mcpLog st)) serverUrl toolName args of
        Throws e \<Rightarrow> (Throws e, st1)
      | Returns txt \<Rightarrow> (Returns (Some (JObj [(''success'', JBool True), (''data'', JStr txt)])), st1))"

definition hasTool :: "string \<Rightarrow> McpServer \<Rightarrow> bool" where
  "hasTool toolName server = (find (\<lambda>t. mt_name t = toolName) (srv_tools server) \<noteq> None)"

definition routeBuiltIn :: "World \<Rightarrow> string \<Rightarrow> json \<Rightarrow> State \<Rightarrow> json option reply \<times> State" where
  "routeBuiltIn w toolName args st =
     (if toolName = ''read_page'' \<or> toolName = ''extract_data'' then
        sendToTab w (READ_PAGE (orElse (field (Some args) ''max_tokens'') (JNum 2000))) st
      else if toolName = ''find_on_page'' then
        sendToTab w (FIND_ON_PAGE (orElse (field (Some args) ''query'') (JStr []))) st
      else if toolName = ''click_element'' then
        sendToTab w (CLICK_ELEMENT (orElse (field (Some args) ''selector'') (JStr []))) st
      else if toolName = ''fill_form'' then
        (let fields0 = orElse (field (Some args) ''fields'') (JObj []);
             fields = (case fields0 of
                         JStr s \<Rightarrow> (case parseJSON w s of Some v \<Rightarrow> v | None \<Rightarrow> fields0)
                       | _ \<Rightarrow> fields0)
         in sendToTab w (FILL_FORM fields) st)
      else if toolName = ''navigate'' then
        (case field (Some args) ''url'' of
           Some u \<Rightarrow>
             if truthy u
             then (Returns (Some (JObj [(''success'', JBool True), (''navigated'', u)])),
                   st\<lparr> tabsCreated := tabsCreated st @ [u] \<rparr>)
             else (Returns (Some (failure ''No URL provided'')), st)
         | None \<Rightarrow> (Returns (Some (failure ''No URL provided'')), st))
      else (Returns (Some (failure (''Unknown built-in tool: '' @ toolName))), st))"

definition executeToolCall ::
  "World \<Rightarrow> string \<Rightarrow> json \<Rightarrow> int \<Rightarrow> State \<Rightarrow> json option reply \<times> State" where
  "executeToolCall w toolName args tabId st =
     (case getToolDef toolName of
        Some builtIn \<Rightarrow>
          (case ensurePermission w tabId (requiredPermission builtIn) (tabOrigin w tabId)
                  (''Tool '' @ [CHR 0x22] @ toolName @ [CHR 0x22] @ '': '' @ pt_description builtIn)
                  (if isWriteAction builtIn then ''medium'' else ''low'') st of
             (granted, st1) \<Rightarrow>
               if \<not> granted then (Returns (Some (failure ''Permission denied'')), st1)
               else routeBuiltIn w toolName args st1)
      | None \<Rightarrow>
          (case find (\<lambda>server. srv_enabled server \<and> hasTool toolName server) (mcpServers w) of
             Some server \<Rightarrow>
               (case callMcpTool w (srv_url server) toolName args st of
                  (Throws e, st1) \<Rightarrow> (Returns (Some (failure (''MCP error: '' @ e))), st1)
                | (Returns r, st1) \<Rightarrow> (Returns r, st1))
           | None \<Rightarrow> (Returns (Some (failure (''Unknown tool: '' @ toolName))), st)))"

section \<open>Tool-call loop\<close>

definition maxIterations :: nat where
  "maxIterations = 5"

definition exhaustedAnswer :: string where
  "exhaustedAnswer = ''(Reached maximum tool call iterations)''"

definition finish :: "string \<Rightarrow> State \<Rightarrow> State" where
  "finish answer st = st\<lparr> toolCallState := (toolCallState st)\<lparr> finalAnswer := answer, running := False \<rparr> \<rparr>"

definition failWith :: "string \<Rightarrow> State \<Rightarrow> State" where
  "failWith e st = st\<lparr> toolCallState := (toolCallState st)\<lparr> error := Some e, running := False \<rparr> \<rparr>"

definition pushCall :: "World \<Rightarrow> string \<Rightarrow> json \<Rightarrow> string \<Rightarrow> nat \<Rightarrow> State \<Rightarrow> State" where
  "pushCall w toolName args res iter st =
     st\<lparr> toolCallState := (toolCallState st)\<lparr> calls := calls (toolCallState st) @
           [\<lparr> tc_toolName = toolName, tc_args = args, tc_result = res, tc_iteration = iter,
              tc_timestamp = clock w \<rparr>] \<rparr> \<rparr>"

text \<open>
  The text kept in a call record: the serialized result cut at 500 characters for an
  object (arrays and null are objects), \<^verbatim>\<open>String(result)\<close> otherwise.
\<close>

definition displayResult :: "World \<Rightarrow> json option \<Rightarrow> string" where
  "displayResult w res =
     (case res of
        None \<Rightarrow> ''undefined''
      | Some (JObj kvs) \<Rightarrow> take 500 (stringify w (JObj kvs))
      | Some (JArr xs) \<Rightarrow> take 500 (stringify w (JArr xs))
      | Some JNull \<Rightarrow> take 500 (stringify w JNull)
      | Some v \<Rightarrow> jsString w v)"

text \<open>
  The body of the loop over the tool calls of one reply, for the call \<open>tc\<close> in iteration
  \<open>i\<close> (counted from 0). \<open>Inl\<close> is a thrown exception, which the loop's
  \<^verbatim>\<open>catch\<close> receives: a rejected message to the content host, or the length of
  \<^verbatim>\<open>JSON.stringify(undefined)\<close>.
\<close>

definition processToolCall ::
  "World \<Rightarrow> int \<Rightarrow> nat \<Rightarrow> json \<Rightarrow> ChatMessage list \<Rightarrow> State \<Rightarrow> (string + ChatMessage list) \<times> State" where
  "processToolCall w tabId i tc messages st =
     (let nameV = orElse (field (field (Some tc) ''function'') ''name'') (JStr []);
          toolName = jsString w nameV;
          toolArgs = orElse (field (field (Some tc) ''function'') ''arguments'') (JObj []);
          st1 = addAuditEvent w
                  (mkEvent ''tool_call_start'' ''openlens''
                     [(''tool'', nameV), (''args'', toolArgs), (''iteration'', JNum (int (i + 1)))]
                     None None (locationOf st)) st
      in case executeToolCall w toolName toolArgs tabId st1 of
           (Throws e, st2) \<Rightarrow> (Inl e, st2)
         | (Returns res, st2) \<Rightarrow>
             (let st3 = pushCall w toolName toolArgs (displayResult w res) (i + 1) st2 in
              case res of
                None \<Rightarrow>
                  (Inl ''TypeError: Cannot read properties of undefined (reading 'length')'', st3)
              | Some r \<Rightarrow>
                  (let tokenCount = ceilDiv4 (length (stringify w r));
                       st4 = addDataEntry w
                               (mkEntry ''openlens'' ''local'' (''tool:'' @ toolName) tokenCount low
                                  ''tool_call'') st3;
                       st5 = addAuditEvent w
                               (mkEvent ''tool_call_result'' ''openlens''
                                  ((''tool'', nameV) #
                                   (case field (Some r) ''success'' of
                                      Some v \<Rightarrow> [(''success'', v)] | None \<Rightarrow> []))
                                  None (Some tokenCount) (locationOf st)) st4
                   in (Inr (messages @
                         [\<lparr> role = ''assistant'',
                            content = ''I called the tool '' @ [CHR 0x22] @ toolName @ [CHR 0x22]
                              @ '' with args '' @ stringify w toolArgs @ ''.'' \<rparr>,
                          \<lparr> role = ''user'',
                            content = ''Tool '' @ [CHR 0x22] @ toolName @ [CHR 0x22] @ '' returned: ''
                              @ take 3000 (stringify w r) @ [CHR 0x0A, CHR 0x0A]
                              @ ''Now continue answering the original question using this result.'' \<rparr>]),
                       st5))))"

fun processToolCalls ::
  "World \<Rightarrow> int \<Rightarrow> nat \<Rightarrow> json list \<Rightarrow> ChatMessage list \<Rightarrow> State \<Rightarrow> (string + ChatMessage list) \<times> State" where
  "processToolCalls w tabId i [] messages st = (Inr messages, st)"
| "processToolCalls w tabId i (tc # tcs) messages st =
     (case processToolCall w tabId i tc messages st of
        (Inl e, st1) \<Rightarrow> (Inl e, st1)
      | (Inr messages1, st1) \<Rightarrow> processToolCalls w tabId i tcs messages1 st1)"

definition finalPrompt :: "World \<Rightarrow> string \<Rightarrow> nat \<Rightarrow> string \<Rightarrow> State \<Rightarrow> State" where
  "finalPrompt w mode iterations answer st =
     addAuditEvent w
       (mkEvent ''llm_prompt'' ''openlens''
          [(''mode'', JStr mode), (''iterations'', JNum (int iterations))]
          None (Some (ceilDiv4 (length answer))) (locationOf st))
       (finish answer st)"

function toolLoop ::
  "World \<Rightarrow> ToolSchema list \<Rightarrow> int \<Rightarrow> nat \<Rightarrow> ChatMessage list \<Rightarrow> State \<Rightarrow> State" where
  "toolLoop w tools tabId i messages st =
     (if i < maxIterations then
        (case llmChat w messages tools st of
           (Inl e, st1) \<Rightarrow> failWith e st1
         | (Inr response, st1) \<Rightarrow>
             (case cr_toolCalls response of
                Some (tc # tcs) \<Rightarrow>
                  (case processToolCalls w tabId i (tc # tcs) messages st1 of
                     (Inl e, st2) \<Rightarrow> failWith e st2
                   | (Inr messages2, st2) \<Rightarrow> toolLoop w tools tabId (Suc i) messages2 st2)
              | Some [] \<Rightarrow> finalPrompt w ''tool_call'' (i + 1) (cr_content response) st1
              | None \<Rightarrow> finalPrompt w ''tool_call'' (i + 1) (cr_content response) st1))
      else finish exhaustedAnswer st)"
  by pat_completeness auto
termination
  by (relation "measure (\<lambda>(w, tools, tabId, i, messages, st). maxIterations - i)") auto

declare toolLoop.simps [simp del]

text \<open>
  The page snapshot taken before the first chat call. It returns the page context (empty
  when there is none). An exception anywhere inside, also the one of the URL parser after
  the context was stored, is caught and only logged.
\<close>

definition preRead :: "World \<Rightarrow> int \<Rightarrow> State \<Rightarrow> string \<times> State" where
  "preRead w tabId st =
     (case sendToTab w (READ_PAGE (JNum 2000)) st of
        (Throws e, st1) \<Rightarrow> ([], st1)
      | (Returns pageResult, st1) \<Rightarrow>
          if truthyOpt (field pageResult ''success'') \<and> truthyOpt (field pageResult ''summary'') then
            (let pageContext = (case field pageResult ''summary'' of
                                  Some v \<Rightarrow> jsString w v | None \<Rightarrow> []);
                 tokenCount = ceilDiv4 (length pageContext)
             in case tabsGet w tabId of
                  None \<Rightarrow> (pageContext, st1)
                | Some url \<Rightarrow>
                    (case hostname w (case url of
                                        Some u \<Rightarrow> if u \<noteq> [] then u else ''unknown''
                                      | None \<Rightarrow> ''unknown'') of
                       None \<Rightarrow> (pageContext, st1)
                     | Some h \<Rightarrow>
                         (pageContext,
                          pushCall w ''read_page'' (JObj [])
                            (''Read '' @ showNat tokenCount @ '' tokens from page'') 0
                            (addDataEntry w
                               (mkEntry h ''web'' ''page_content'' tokenCount low ''tool_call'') st1))))
          else ([], st1))"

definition directAnswer :: "World \<Rightarrow> string \<Rightarrow> string \<Rightarrow> State \<Rightarrow> bool \<times> State" where
  "directAnswer w intent pageContext st =
     (case llmChat w
             [\<lparr> role = ''system'',
                content = ''You are a helpful browser AI assistant analyzing a web page. Answer the user's question directly and concisely using the page content below.''
                  @ [CHR 0x0A, CHR 0x0A] @ ''Page content:'' @ [CHR 0x0A] @ pageContext \<rparr>,
              \<lparr> role = ''user'', content = intent \<rparr>] [] st of
        (Inl e, st1) \<Rightarrow> (False, st1)
      | (Inr response, st1) \<Rightarrow>
          (let answer = trim (cr_content response) in
           if answer \<noteq> [] \<and> \<not> startsWith answer toolMarker \<and> length answer > 10
           then (True, finalPrompt w ''direct_answer'' 0 answer st1)
           else (False, st1)))"

definition systemPrompt :: "string \<Rightarrow> string" where
  "systemPrompt pageContext =
     (if pageContext \<noteq> [] then
        ''You are a helpful browser AI assistant. You have access to tools. Use tools when needed. Be concise.''
        @ [CHR 0x0A, CHR 0x0A] @ ''Current page content:'' @ [CHR 0x0A] @ pageContext
      else
        ''You are a helpful browser AI assistant. You have access to tools. Use tools when needed (call read_page first if you need page content). Be concise.'')"

definition runToolCallLoop :: "World \<Rightarrow> string \<Rightarrow> int \<Rightarrow> State \<Rightarrow> State" where
  "runToolCallLoop w intent tabId st =
     (let st0 = st\<lparr> toolCallState := \<lparr> running = True, calls = [], finalAnswer = [], error = None \<rparr> \<rparr>;
          tools = getAllToolSchemas (getAllMcpTools w)
      in case preRead w tabId st0 of
           (pageContext, st1) \<Rightarrow>
             (case (if pageContext \<noteq> [] then directAnswer w intent pageContext st1
                    else (False, st1)) of
                (True, st2) \<Rightarrow> st2
              | (False, st2) \<Rightarrow>
                  toolLoop w tools tabId 0
                    [\<lparr> role = ''system'', content = systemPrompt pageContext \<rparr>,
                     \<lparr> role = ''user'', content = intent \<rparr>] st2))"

section \<open>Plan creation\<close>



section \<open>Plan execution\<close>

definition stepPrompt :: "string \<Rightarrow> TaskStep \<Rightarrow> string \<Rightarrow> string list \<Rightarrow> string" where
  "stepPrompt intent step pageData previousResults =
     ''Task: '' @ [CHR 0x22] @ intent @ [CHR 0x22, CHR 0x0A] @ ''Step: '' @ step_title step
     @ [CHR 0x0A] @ ''Tool: '' @ step_tool step @ [CHR 0x0A, CHR 0x0A] @ ''Page data:'' @ [CHR 0x0A]
     @ pageData
     @ (if previousResults \<noteq> []
        then [CHR 0x0A] @ ''Previous steps:'' @ [CHR 0x0A] @ join [CHR 0x0A] previousResults
        else [])
     @ [CHR 0x0A, CHR 0x0A]
     @ ''Provide a helpful, concise response (3-4 sentences). Answer the user's question directly.''"

definition setStep :: "nat \<Rightarrow> TaskStep \<Rightarrow> State \<Rightarrow> State" where
  "setStep stepIdx step st =
     st\<lparr> currentPlan := (case currentPlan st of
                            None \<Rightarrow> None
                          | Some plan \<Rightarrow> Some (plan\<lparr> plan_steps := (plan_steps plan)[stepIdx := step] \<rparr>)) \<rparr>"

text \<open>The origin of a plan: the hostname of the page URL, \<open>unknown\<close> without one.\<close>

definition planOrigin :: "World \<Rightarrow> TaskPlan \<Rightarrow> string" where
  "planOrigin w plan =
     (case plan_pageUrl plan of
        Some url \<Rightarrow> if url \<noteq> [] then (case hostname w url of Some h \<Rightarrow> h | None \<Rightarrow> ''unknown'')
                    else ''unknown''
      | None \<Rightarrow> ''unknown'')"

text \<open>The command a step sends; \<open>Throws\<close> is a rejected message to the content host.\<close>

definition runStepTool :: "World \<Rightarrow> TaskStep \<Rightarrow> State \<Rightarrow> json option reply \<times> State" where
  "runStepTool w step st =
     (if step_tool step = ''read_page'' \<or> step_tool step = ''extract_data'' then
        sendToTab w (READ_PAGE (JNum 2000)) st
      else if step_tool step = ''find_on_page'' then
        sendToTab w (FIND_ON_PAGE (orElse (field (step_toolParams step) ''query'')
                                     (JStr (step_description step)))) st
      else if step_tool step = ''click_element'' then
        sendToTab w (CLICK_ELEMENT (orElse (field (step_toolParams step) ''selector'') (JStr []))) st
      else if step_tool step = ''fill_form'' then
        (let fields0 = orElse (field (step_toolParams step) ''fields'') (JObj []);
             fields = (case fields0 of
                         JStr s \<Rightarrow> (case parseJSON w s of Some v \<Rightarrow> v | None \<Rightarrow> JObj [])
                       | _ \<Rightarrow> fields0)
         in sendToTab w (FILL_FORM fields) st)
      else if step_tool step = ''navigate'' then
        (case field (step_toolParams step) ''url'' of
           Some u \<Rightarrow>
             if truthy u
             then (Returns (Some (JObj [(''success'', JBool True), (''navigated'', u)])),
                   st\<lparr> tabsCreated := tabsCreated st @ [u] \<rparr>)
             else (Returns (Some (failure ''No URL provided'')), st)
         | None \<Rightarrow> (Returns (Some (failure ''No URL provided'')), st))
      else (Returns (Some (failure (''Unknown tool: '' @ step_tool step))), st))"

text \<open>\<^verbatim>\<open>toolResult.context || toolResult.matches || toolResult\<close>.\<close>

definition resultDataOf :: "json \<Rightarrow> json" where
  "resultDataOf toolResult =
     orElse (field (Some toolResult) ''context'') (orElse (field (Some toolResult) ''matches'') toolResult)"

text \<open>
  The sensitivity of a step's data entry:
  \<^verbatim>\<open>toolResult.context?.structuredData?.emailCount > 0 ? 'medium' : 'low'\<close>.
\<close>

definition stepSensitivity :: "json \<Rightarrow> Sensitivity" where
  "stepSensitivity toolResult =
     (case field (field (field (Some toolResult) ''context'') ''structuredData'') ''emailCount'' of
        Some (JNum n) \<Rightarrow> if n > 0 then medium else low
      | _ \<Rightarrow> low)"

text \<open>The block that records the data of a successful step in the ledger.\<close>

definition trackStepData :: "World \<Rightarrow> string \<Rightarrow> TaskStep \<Rightarrow> json \<Rightarrow> State \<Rightarrow> State" where
  "trackStepData w orig step toolResult st =
     (let tokenCount = ceilDiv4 (length (stringify w (resultDataOf toolResult)));
          st1 = addDataEntry w
                  (mkEntry orig ''page_content'' (step_tool step) tokenCount
                     (stepSensitivity toolResult) ''tool_call'') st;
          st2 = addAuditEvent w
                  (mkEvent ''tool_call'' orig
                     ((''tool'', JStr (step_tool step)) #
                      (case step_toolParams step of Some ps \<Rightarrow> [(''params'', ps)] | None \<Rightarrow> []))
                     None (Some tokenCount) (locationOf st)) st1
      in st2\<lparr> processingLocation := locationOf st \<rparr>)"

text \<open>
  The analysis of the step's data by the model; it returns the step's output text. The
  earlier results are read from the plan of the state, in which the step at hand is still
  marked running. (The dashes of the source's texts are written as hyphens.)
\<close>

definition analyseStep :: "World \<Rightarrow> string \<Rightarrow> TaskStep \<Rightarrow> json \<Rightarrow> State \<Rightarrow> string \<times> State" where
  "analyseStep w intent step toolResult st =
     (if model st \<noteq> [] then
        (let previousResults =
               map (\<lambda>s. step_title s @ '': '' @ (case step_llmOutput s of Some t \<Rightarrow> t | None \<Rightarrow> []))
                 (filter (\<lambda>s. step_status s = ''completed''
                              \<and> (case step_llmOutput s of Some t \<Rightarrow> t \<noteq> [] | None \<Rightarrow> False))
                    (case currentPlan st of Some plan \<Rightarrow> plan_steps plan | None \<Rightarrow> []));
             serialized = stringify w (resultDataOf toolResult);
             pageData =
               (if step_tool step = ''read_page'' \<or> step_tool step = ''extract_data''
                then (case field (Some toolResult) ''summary'' of
                        Some v \<Rightarrow> if truthy v then jsString w v else take 3000 serialized
                      | None \<Rightarrow> take 3000 serialized)
                else take 1000 serialized);
             prompt = stepPrompt intent step pageData previousResults
         in case llmChat w
                   [\<lparr> role = ''system'',
                      content = ''You are a helpful AI assistant analyzing real browser page content. Be concise and specific.'' \<rparr>,
                    \<lparr> role = ''user'', content = prompt \<rparr>] [] st of
              (Inl e, st1) \<Rightarrow> (''(LLM unavailable - showing raw data)'', st1)
            | (Inr response, st1) \<Rightarrow>
                (let out = (if cr_content response \<noteq> [] then cr_content response else ''(No response)'');
                     llmTokens = ceilDiv4 (length prompt + length out);
                     st2 = addAuditEvent w
                             (mkEvent ''llm_prompt'' ''openlens''
                                [(''step'', JStr (step_title step)),
                                 (''provider'', JStr (providerName (provider st)))]
                                None (Some llmTokens) (cr_processingLocation response)) st1
                 in (out, st2\<lparr> contextUsed := contextUsed st2 + llmTokens \<rparr>)))
      else (''(No model configured - showing raw data)'', st))"

definition finishStep :: "World \<Rightarrow> nat \<Rightarrow> string \<Rightarrow> TaskStep \<Rightarrow> State \<Rightarrow> TaskStep option \<times> State" where
  "finishStep w stepIdx orig step st =
     (Some step,
      addAuditEvent w
        (mkEvent ''task_step'' orig
           [(''step'', JStr (step_title step)), (''tool'', JStr (step_tool step))]
           None None (locationOf st))
        (setStep stepIdx step (st\<lparr> processingLocation := ''idle'' \<rparr>)))"

text \<open>
  \<^verbatim>\<open>executeStep\<close>: the step is marked running, the permission guard is asked for the
  step's capability and, under a hosted provider, for data_send; then the tool runs. The
  plan of the state holds the updated step afterwards.
\<close>

definition executeStep :: "World \<Rightarrow> nat \<Rightarrow> int \<Rightarrow> State \<Rightarrow> TaskStep option \<times> State" where
  "executeStep w stepIdx tabId st =
     (case currentPlan st of
        None \<Rightarrow> (None, st)
      | Some plan \<Rightarrow>
          if stepIdx \<ge> length (plan_steps plan) then (None, st)
          else
            (let step = (plan_steps plan ! stepIdx)\<lparr> step_status := ''running'' \<rparr>;
                 st0 = setStep stepIdx step st;
                 orig = planOrigin w plan
             in case ensurePermission w tabId (step_requiredPermission step) orig
                       (''Step '' @ [CHR 0x22] @ step_title step @ [CHR 0x22] @ '': ''
                          @ step_description step)
                       (if step_isWriteAction step then ''medium'' else ''low'') st0 of
                  (granted, st1) \<Rightarrow>
                    if \<not> granted then
                      (let skipped = step\<lparr> step_status := ''skipped'',
                                           step_llmOutput := Some ''(Permission denied by user)'' \<rparr>
                       in (Some skipped, setStep stepIdx skipped st1))
                    else
                      (case (if provider st1 \<noteq> ollama
                             then ensurePermission w tabId data_send orig
                                    (''Send page content to '' @ providerName (provider st1)
                                       @ '' for analysis'') ''high'' st1
                             else (True, st1)) of
                         (cloudGranted, st2) \<Rightarrow>
                           if \<not> cloudGranted then
                             (let skipped = step\<lparr> step_status := ''skipped'',
                                    step_llmOutput := Some ''(Cloud send denied - switch to local Ollama for no-cloud processing)'' \<rparr>
                              in (Some skipped, setStep stepIdx skipped st2))
                           else
                             (case runStepTool w step st2 of
                                (Throws e, st3) \<Rightarrow>
                                  finishStep w stepIdx orig
                                    (step\<lparr> step_status := ''completed'',
                                           step_result := Some (JObj [(''error'', JStr e)]),
                                           step_llmOutput := Some (''(Error: '' @ e @ '')'') \<rparr>) st3
                              | (Returns toolResult, st3) \<Rightarrow>
                                  if \<not> truthyOpt (field toolResult ''success'') then
                                    (let failed = step\<lparr> step_status := ''completed'',
                                           step_result := toolResult,
                                           step_llmOutput := Some (''(Tool error: ''
                                              @ (case field toolResult ''error'' of
                                                   Some v \<Rightarrow> if truthy v then jsString w v else ''unknown''
                                                 | None \<Rightarrow> ''unknown'') @ '')'') \<rparr>
                                     in (Some failed, setStep stepIdx failed st3))
                                  else
                                    (case toolResult of
                                       None \<Rightarrow> (None, st3)
                                     | Some tr \<Rightarrow>
                                         (let st4 = trackStepData w orig step tr st3;
                                              tracked = step\<lparr> step_result := Some (resultDataOf tr),
                                                 step_tokens := ceilDiv4 (length (stringify w (resultDataOf tr))),
                                                 step_origin := Some orig,
                                                 step_sensitivity := Some (stepSensitivity tr) \<rparr>
                                          in case analyseStep w (plan_intent plan) tracked tr (setStep stepIdx tracked st4) of
                                               (out, st5) \<Rightarrow>
                                                 finishStep w stepIdx orig
                                                   (tracked\<lparr> step_llmOutput := Some out,
                                                             step_status := ''completed'' \<rparr>) st5))))))"


section \<open>Cross-origin detection\<close>

text \<open>A JavaScript \<^verbatim>\<open>Set\<close> built from a list: the distinct elements in order of first occurrence.\<close>

definition jsSet :: "'a list \<Rightarrow> 'a list" where
  "jsSet xs = foldl (\<lambda>acc x. if x \<in> set acc then acc else acc @ [x]) [] xs"



definition cloudNote :: "ProviderType \<Rightarrow> string" where
  "cloudNote p =
     (if p \<noteq> ollama then '' All this data is being sent to '' @ providerName p @ '' cloud servers.''
      else '' Processing is local - data stays on device.'')"

definition crossOriginWarning :: "string list \<Rightarrow> bool \<Rightarrow> ProviderType \<Rightarrow> string" where
  "crossOriginWarning origins sensitive p =
     (if sensitive
      then ''Data from '' @ join '' + '' origins
           @ '' is merging in the AI context. This includes sensitive data.'' @ cloudNote p
      else ''Data from '' @ join '' + '' origins @ '' is merging in the AI context.'' @ cloudNote p)"


section \<open>Sensitivity classification (src/lib/sensitivity.ts) and the event bus (src/modules/event-bus.ts)\<close>

definition toLowerAscii :: "char \<Rightarrow> char" where
  "toLowerAscii c =
     (case map_of (zip ''ABCDEFGHIJKLMNOPQRSTUVWXYZ'' ''abcdefghijklmnopqrstuvwxyz'') c of
        Some l \<Rightarrow> l | None \<Rightarrow> c)"

definition HIGH_PATTERNS :: "string list" where
  "HIGH_PATTERNS =
     [''calendar'', ''schedule'', ''event'', ''meeting'', ''email'', ''draft'', ''order'', ''payment'',
      ''price'', ''budget'', ''name'', ''address'', ''phone'', ''birth'', ''health'', ''medical'',
      ''password'', ''credit'', ''bank'', ''salary'']"

definition MEDIUM_PATTERNS :: "string list" where
  "MEDIUM_PATTERNS =
     [''preference'', ''search'', ''query'', ''pattern'', ''browse'', ''history'', ''bookmark'',
      ''wishlist'', ''cart'', ''interest'']"

text \<open>
  The test of a case-insensitive alternation of words: one of the words occurs in the text,
  letters compared without case.
\<close>

definition testPatterns :: "string list \<Rightarrow> string \<Rightarrow> bool" where
  "testPatterns patterns text = list_ex (\<lambda>p. includesStr (map toLowerAscii text) p) patterns"

definition classifySensitivity :: "string \<Rightarrow> Sensitivity" where
  "classifySensitivity text =
     (if testPatterns HIGH_PATTERNS text then high
      else if testPatterns MEDIUM_PATTERNS text then medium
      else low)"

record AgentEvent =
  ev_type :: string
  ev_origin :: string
  ev_data :: "(string \<times> json) list"
  ev_tokens :: "nat option"

text \<open>The session state of the event bus, a module state of its own.\<close>

record BusState =
  bus_dataEntries :: "DataEntry list"
  bus_auditEvents :: "AuditEvent list"
  bus_totalTokens :: nat
  bus_contextUsed :: nat
  bus_processingLocation :: string

definition busAddDataEntry :: "World \<Rightarrow> DataEntry \<Rightarrow> BusState \<Rightarrow> BusState" where
  "busAddDataEntry w entry b =
     b\<lparr> bus_dataEntries := bus_dataEntries b @ [entry\<lparr> de_timestamp := clock w \<rparr>],
        bus_totalTokens := bus_totalTokens b + de_tokenCount entry,
        bus_contextUsed := bus_contextUsed b + de_tokenCount entry \<rparr>"

definition busAddAuditEvent :: "World \<Rightarrow> AuditEvent \<Rightarrow> BusState \<Rightarrow> BusState" where
  "busAddAuditEvent w ev b = b\<lparr> bus_auditEvents := bus_auditEvents b @ [ev\<lparr> ae_timestamp := clock w \<rparr>] \<rparr>"

definition emitEvent :: "World \<Rightarrow> AgentEvent \<Rightarrow> BusState \<Rightarrow> BusState" where
  "emitEvent w event b =
     (let b1 = (case ev_tokens event of
                  Some n \<Rightarrow>
                    if n > 0 then
                      busAddDataEntry w
                        (mkEntry (ev_origin event)
                           (jsString w (orElse (map_of (ev_data event) ''originType'') (JStr ''local'')))
                           (jsString w (orElse (map_of (ev_data event) ''dataType'') (JStr (ev_type event))))
                           n (classifySensitivity (stringify w (JObj (ev_data event))))
                           (ev_type event)) b
                    else b
                | None \<Rightarrow> b)
      in busAddAuditEvent w
           (mkEvent (ev_type event) (ev_origin event) (ev_data event) None (ev_tokens event)
              (if bus_processingLocation b1 = ''idle'' then ''local'' else bus_processingLocation b1))
           b1)"

section \<open>Audit events of the permission guard\<close>

text \<open>The events that \<^verbatim>\<open>ensurePermission\<close> records, as they reach the audit list.\<close>

definition autoGrantEvent :: "World \<Rightarrow> PermissionType \<Rightarrow> PermissionScope \<Rightarrow> string \<Rightarrow> string \<Rightarrow> string \<Rightarrow> AuditEvent" where
  "autoGrantEvent w permType sc orig why loc =
     \<lparr> ae_type = ''permission_granted'', ae_origin = orig,
       ae_detail = [(''permType'', JStr (permTypeName permType)), (''scope'', JStr (scopeName sc)),
                    (''autoGranted'', JBool True), (''reason'', JStr why)],
       ae_userAction = (if sc = session then Some ''auto'' else None), ae_tokensInvolved = None,
       ae_processingLocation = loc, ae_timestamp = clock w \<rparr>"

definition requestedEvent :: "World \<Rightarrow> PermissionType \<Rightarrow> string \<Rightarrow> string \<Rightarrow> string \<Rightarrow> string \<Rightarrow> AuditEvent" where
  "requestedEvent w permType orig reason sens loc =
     \<lparr> ae_type = ''permission_requested'', ae_origin = orig,
       ae_detail = [(''permType'', JStr (permTypeName permType)), (''reason'', JStr reason),
                    (''sensitivity'', JStr sens)],
       ae_userAction = None, ae_tokensInvolved = None,
       ae_processingLocation = loc, ae_timestamp = clock w \<rparr>"

definition decisionEvent :: "World \<Rightarrow> PermissionType \<Rightarrow> string \<Rightarrow> bool \<Rightarrow> PermissionScope \<Rightarrow> string \<Rightarrow> AuditEvent" where
  "decisionEvent w permType orig granted sc loc =
     \<lparr> ae_type = (if granted then ''permission_granted'' else ''permission_denied''), ae_origin = orig,
       ae_detail = (if granted then [(''permType'', JStr (permTypeName permType)), (''scope'', JStr (scopeName sc))]
                    else [(''permType'', JStr (permTypeName permType))]),
       ae_userAction = Some (if granted then ''approved'' else ''denied''), ae_tokensInvolved = None,
       ae_processingLocation = loc, ae_timestamp = clock w \<rparr>"

section \<open>Sample worlds and states\<close>

text \<open>
  A world in which the tab shows a page of a.example, the content host answers nothing,
  the user denies every request and the backend replies with an empty text, and a fresh
  state for a provider. The worlds of the examples below vary single components of it.
\<close>

definition world0 :: World where
  "world0 =
     \<lparr> clock = 1000,
       dialog = (\<lambda>n t r s. DialogResult False page),
       contentHost = (\<lambda>n m. Returns None),
       tabsGet = (\<lambda>t. Some (Some ''https://a.example/'')),
       hostname = (\<lambda>u. if u = ''https://a.example/'' then Some ''a.example'' else None),
       backend = (\<lambda>n ms ts. Response 200 (Some \<lparr> msg_content = [], msg_tool_calls = [] \<rparr>)),
       stringify = (\<lambda>j. ''{}''),
       parseJSON = (\<lambda>s. None),
       toString = (\<lambda>j. ''?''),
       mcpServers = [],
       mcpCall = (\<lambda>n u t a. Throws ''unreachable'') \<rparr>"

definition state0 :: "ProviderType \<Rightarrow> State" where
  "state0 p =
     \<lparr> provider = p, model = ''m'', permissions = [], dataEntries = [], auditEvents = [],
       totalTokens = 0, contextUsed = 0, processingLocation = ''idle'',
       toolCallState = \<lparr> running = False, calls = [], finalAnswer = [], error = None \<rparr>,
       currentPlan = None,
       tabLog = [], tabsCreated = [], mcpLog = [], chatLog = [], fetchLog = [] \<rparr>"



definition deafWorld :: World where
  "deafWorld = world0\<lparr> dialog := (\<lambda>n t r s. DialogThrows ''Could not establish connection'') \<rparr>"

section \<open>Nesting depth of a text\<close>

text \<open>The number of opening braces of a text minus the number of its closing braces.\<close>

definition braceDepth :: "string \<Rightarrow> int" where
  "braceDepth s = int (length (filter (\<lambda>c. c = CHR ''{'') s)) - int (length (filter (\<lambda>c. c = CHR ''}'') s))"

section \<open>Sample replies and backends\<close>

definition sampleTool :: ToolSchema where
  "sampleTool = \<lparr> ts_name = ''read_page'', ts_description = ''Extract the page'', ts_properties = JObj [] \<rparr>"

definition sampleMessages :: "ChatMessage list" where
  "sampleMessages = [\<lparr> role = ''system'', content = ''Be concise.'' \<rparr>, \<lparr> role = ''user'', content = ''What is this page?'' \<rparr>]"

definition embeddedCall :: string where
  \<open>embeddedCall = ''{"tool":"find_on_page","args":{"query":"price"}}''\<close>

definition sampleReply :: string where
  "sampleReply = ''Sure. '' @ embeddedCall @ '' Done.''"

definition parsedCall :: json where
  "parsedCall = JObj [(''tool'', JStr ''find_on_page''), (''args'', JObj [(''query'', JStr ''price'')])]"

text \<open>A world whose JSON parser knows the embedded call of the sample reply.\<close>

definition parserWorld :: World where
  "parserWorld = world0\<lparr> parseJSON := (\<lambda>s. if s = embeddedCall then Some parsedCall else None) \<rparr>"

text \<open>
  A backend that rejects a request with tools with status 400 and answers the request
  without tools with the sample reply; and one that answers 404 to everything.
\<close>

definition rejectingWorld :: World where
  "rejectingWorld =
     parserWorld\<lparr> backend := (\<lambda>n ms ts. if ts \<noteq> [] then Response 400 None
                                   else Response 200 (Some \<lparr> msg_content = sampleReply, msg_tool_calls = [] \<rparr>)) \<rparr>"

definition notFoundWorld :: World where
  "notFoundWorld = world0\<lparr> backend := (\<lambda>n ms ts. Response 404 None) \<rparr>"

text \<open>A backend that is down: it answers 503 to everything.\<close>

definition unavailableWorld :: World where
  "unavailableWorld = world0\<lparr> backend := (\<lambda>n ms ts. Response 503 None) \<rparr>"

section \<open>Counting the loop's chat calls\<close>

text \<open>
  The number of \<^verbatim>\<open>llmChat\<close> invocations so far that passed tool schemas: the calls of
  the loop's iterations (the direct-answer attempt passes none).
\<close>

definition toolChats :: "State \<Rightarrow> nat" where
  "toolChats st = length (filter (\<lambda>(ms, ts). ts \<noteq> []) (chatLog st))"

text \<open>The audit events appended since the list had \<open>n\<close> events.\<close>

definition eventsSince :: "nat \<Rightarrow> State \<Rightarrow> AuditEvent list" where
  "eventsSince n st = drop n (auditEvents st)"

text \<open>A backend that answers every request with a native call of a tool nobody provides.\<close>

definition insistingWorld :: World where
  "insistingWorld =
     world0\<lparr> backend := (\<lambda>n ms ts. Response 200
                 (Some \<lparr> msg_content = [], msg_tool_calls = [mkToolCall (JStr ''summon'') (JObj [])] \<rparr>)) \<rparr>"

section \<open>The permission check of a dispatch\<close>




text \<open>
  A page that answers a read with a summary, and a backend that answers in plain text.
\<close>

definition readableWorld :: World where
  "readableWorld =
     world0\<lparr> contentHost := (\<lambda>n m. Returns (Some (JObj [(''success'', JBool True),
                                   (''summary'', JStr ''Account balance: 120 EUR'')]))),
             backend := (\<lambda>n ms ts. Response 200
                 (Some \<lparr> msg_content = ''Your balance is 120 EUR.'', msg_tool_calls = [] \<rparr>)) \<rparr>"

section \<open>Sample plans\<close>






section \<open>Origins of the steps of a plan\<close>


text \<open>
  A page whose content mentions a password, with the text \<^verbatim>\<open>JSON.stringify\<close> gives for
  the answer of the content host.
\<close>

definition secretReply :: json where
  "secretReply = JObj [(''success'', JBool True), (''summary'', JStr ''Your password is hunter2'')]"

definition secretJson :: string where
  \<open>secretJson = ''{"success":true,"summary":"Your password is hunter2"}''\<close>

definition secretWorld :: World where
  "secretWorld =
     world0\<lparr> contentHost := (\<lambda>n m. Returns (Some secretReply)),
             stringify := (\<lambda>j. if j = secretReply then secretJson else ''{}'') \<rparr>"

section \<open>Passes of the loop\<close>

text \<open>
  One pass of the loop body that goes on to the next iteration: the gateway answered with
  at least one tool call and every call of the reply was processed without an exception.
  It returns the messages and the state the next iteration starts with; \<open>None\<close> when
  the body returned instead (an exception, or a reply without tool calls).
\<close>

definition toolPass ::
  "World \<Rightarrow> ToolSchema list \<Rightarrow> int \<Rightarrow> nat \<Rightarrow> ChatMessage list \<Rightarrow> State
     \<Rightarrow> (ChatMessage list \<times> State) option" where
  "toolPass w tools tabId i messages st =
     (case llmChat w messages tools st of
        (Inl e, st1) \<Rightarrow> None
      | (Inr response, st1) \<Rightarrow>
          (case cr_toolCalls response of
             Some (tc # tcs) \<Rightarrow>
               (case processToolCalls w tabId i (tc # tcs) messages st1 of
                  (Inl e, st2) \<Rightarrow> None
                | (Inr messages2, st2) \<Rightarrow> Some (messages2, st2))
           | Some [] \<Rightarrow> None
           | None \<Rightarrow> None))"

text \<open>\<open>n\<close> such passes in a row, from iteration \<open>i\<close> on.\<close>

fun toolPasses ::
  "World \<Rightarrow> ToolSchema list \<Rightarrow> int \<Rightarrow> nat \<Rightarrow> nat \<Rightarrow> ChatMessage list \<Rightarrow> State
     \<Rightarrow> (ChatMessage list \<times> State) option" where
  "toolPasses w tools tabId 0 i messages st = Some (messages, st)"
| "toolPasses w tools tabId (Suc n) i messages st =
     (case toolPass w tools tabId i messages st of
        None \<Rightarrow> None
      | Some (messages2, st2) \<Rightarrow> toolPasses w tools tabId n (Suc i) messages2 st2)"

text \<open>
  The messages and the state with which the task enters the loop; \<open>None\<close> when the
  direct answer from the pre-read page was accepted and the loop is not entered.
\<close>

definition loopEntry :: "World \<Rightarrow> string \<Rightarrow> int \<Rightarrow> State \<Rightarrow> (ChatMessage list \<times> State) option" where
  "loopEntry w intent tabId st =
     (case preRead w tabId
             (st\<lparr> toolCallState := \<lparr> running = True, calls = [], finalAnswer = [], error = None \<rparr> \<rparr>) of
        (pageContext, st1) \<Rightarrow>
          (case (if pageContext \<noteq> [] then directAnswer w intent pageContext st1 else (False, st1)) of
             (True, st2) \<Rightarrow> None
           | (False, st2) \<Rightarrow>
               Some ([\<lparr> role = ''system'', content = systemPrompt pageContext \<rparr>,
                      \<lparr> role = ''user'', content = intent \<rparr>], st2)))"

section \<open>Properties of the permission store\<close>

lemma sameTriple_newPermission: "sameTriple ty orig tab (newPermission ty sc orig tab now)"
  by (simp add: sameTriple_def newPermission_def)

lemma not_expired_newPermission: "\<not> expired now (newPermission ty sc orig tab now)"
  by (simp add: expired_def newPermission_def)

lemma filter_sameTriple_grant:
  "filter (sameTriple ty orig tab) (grantPermission ty sc orig tab now ps) =
     [newPermission ty sc orig tab now]"
proof -
  have "filter (sameTriple ty orig tab) (filter (\<lambda>p. \<not> sameTriple ty orig tab p) ps) = []"
    by (induction ps) auto
  then show ?thesis
    by (simp add: grantPermission_def sameTriple_newPermission)
qed

text \<open>
  C10. Granting twice for the same (type, origin, tabId) leaves exactly one stored grant
  for that triple, and it is the later grant: it carries the later scope, the later grant
  time and the expiry that scope gives (none for page scope, thirty minutes after the
  later grant otherwise); that grant is active at the time of the later grant.
\<close>

theorem grantPermission_idempotent:
  "filter (sameTriple ty orig tab)
      (grantPermission ty sc2 orig tab now2 (grantPermission ty sc1 orig tab now1 ps))
     = [newPermission ty sc2 orig tab now2]
   \<and> filter (sameTriple ty orig tab)
        (getActivePermissions None now2
           (grantPermission ty sc2 orig tab now2 (grantPermission ty sc1 orig tab now1 ps)))
     = [newPermission ty sc2 orig tab now2]
   \<and> p_scope (newPermission ty sc2 orig tab now2) = sc2
   \<and> p_expiresAt (newPermission ty sc2 orig tab now2)
       = (if sc2 = page then None else Some (now2 + 1800000))"
proof -
  let ?ps = "grantPermission ty sc2 orig tab now2 (grantPermission ty sc1 orig tab now1 ps)"
  let ?n = "newPermission ty sc2 orig tab now2"
  have one: "filter (sameTriple ty orig tab) ?ps = [?n]"
    by (rule filter_sameTriple_grant)
  have "filter (sameTriple ty orig tab) (getActivePermissions None now2 ?ps)
      = filter (\<lambda>p. \<not> expired now2 p) (filter (sameTriple ty orig tab) ?ps)"
    by (auto simp: getActivePermissions_def intro!: filter_cong)
  also have "\<dots> = [?n]"
    by (simp add: one not_expired_newPermission)
  finally have two: "filter (sameTriple ty orig tab) (getActivePermissions None now2 ?ps) = [?n]" .
  show ?thesis
    using one two by (simp add: newPermission_def)
qed

section \<open>The permission guard\<close>

text \<open>
  C5. When no covering unexpired grant is stored: under the ollama provider a page_read
  request is granted at once, at session scope, with one audit event marked autoGranted, and
  no message goes to the decision surface; in every other combination of capability and
  provider the request is recorded, the decision surface is asked exactly once, and when it
  answers, the outcome, the stored grant and the audit event are the user's decision.
\<close>

theorem ensurePermission_auto_grant:
  assumes none: "checkPermission permType orig tabId (clock w) (permissions st) = None"
  shows "(provider st = ollama \<and> permType = page_read \<longrightarrow>
            ensurePermission w tabId permType orig reason sens st =
              (True, st\<lparr> permissions := grantPermission page_read session orig tabId (clock w) (permissions st),
                         auditEvents := auditEvents st @
                           [autoGrantEvent w page_read session orig
                              ''Local processing - data stays on device'' ''local''] \<rparr>))
       \<and> (\<not> (provider st = ollama \<and> permType = page_read) \<longrightarrow>
            tabLog (snd (ensurePermission w tabId permType orig reason sens st))
              = tabLog st @ [SHOW_PERMISSION_DIALOG permType reason sens]
          \<and> take (Suc (length (auditEvents st)))
                (auditEvents (snd (ensurePermission w tabId permType orig reason sens st)))
              = auditEvents st @ [requestedEvent w permType orig reason sens (locationOf st)]
          \<and> (\<forall>granted sc. dialog w (length (tabLog st)) permType reason sens = DialogResult granted sc \<longrightarrow>
                ensurePermission w tabId permType orig reason sens st =
                  (granted,
                   st\<lparr> permissions := (if granted
                                        then grantPermission permType sc orig tabId (clock w) (permissions st)
                                        else permissions st),
                       auditEvents := auditEvents st @
                         [requestedEvent w permType orig reason sens (locationOf st),
                          decisionEvent w permType orig granted sc (locationOf st)],
                       tabLog := tabLog st @ [SHOW_PERMISSION_DIALOG permType reason sens] \<rparr>)))"
proof (intro conjI impI allI)
  assume "provider st = ollama \<and> permType = page_read"
  then show "ensurePermission w tabId permType orig reason sens st =
              (True, st\<lparr> permissions := grantPermission page_read session orig tabId (clock w) (permissions st),
                         auditEvents := auditEvents st @
                           [autoGrantEvent w page_read session orig
                              ''Local processing - data stays on device'' ''local''] \<rparr>)"
    using none
    by (simp add: ensurePermission_def addAuditEvent_def mkEvent_def locationOf_def
        autoGrantEvent_def scopeName_def)
next
  assume h: "\<not> (provider st = ollama \<and> permType = page_read)"
  show "tabLog (snd (ensurePermission w tabId permType orig reason sens st))
              = tabLog st @ [SHOW_PERMISSION_DIALOG permType reason sens]"
    using none h
    by (auto simp add: ensurePermission_def addAuditEvent_def Let_def
        split: dialog_reply.splits bool.splits)
  show "take (Suc (length (auditEvents st)))
                (auditEvents (snd (ensurePermission w tabId permType orig reason sens st)))
              = auditEvents st @ [requestedEvent w permType orig reason sens (locationOf st)]"
    using none h
    by (auto simp add: ensurePermission_def addAuditEvent_def Let_def mkEvent_def requestedEvent_def
        split: dialog_reply.splits bool.splits)
next
  fix granted sc
  assume h: "\<not> (provider st = ollama \<and> permType = page_read)"
     and d: "dialog w (length (tabLog st)) permType reason sens = DialogResult granted sc"
  show "ensurePermission w tabId permType orig reason sens st =
                  (granted,
                   st\<lparr> permissions := (if granted
                                        then grantPermission permType sc orig tabId (clock w) (permissions st)
                                        else permissions st),
                       auditEvents := auditEvents st @
                         [requestedEvent w permType orig reason sens (locationOf st),
                          decisionEvent w permType orig granted sc (locationOf st)],
                       tabLog := tabLog st @ [SHOW_PERMISSION_DIALOG permType reason sens] \<rparr>)"
    using none h d
    by (cases granted)
       (auto simp add: ensurePermission_def addAuditEvent_def Let_def mkEvent_def requestedEvent_def
        decisionEvent_def)
qed

theorem ensurePermission_auto_grant_witness:
  "checkPermission page_read ''a.example'' 1 (clock world0) (permissions (state0 ollama)) = None
   \<and> fst (ensurePermission world0 1 page_read ''a.example'' ''read'' ''low'' (state0 ollama))
   \<and> tabLog (snd (ensurePermission world0 1 page_read ''a.example'' ''read'' ''low'' (state0 ollama))) = []
   \<and> checkPermission page_read ''a.example'' 1 (clock world0) (permissions (state0 openai)) = None
   \<and> \<not> fst (ensurePermission world0 1 page_read ''a.example'' ''read'' ''low'' (state0 openai))
   \<and> tabLog (snd (ensurePermission world0 1 page_read ''a.example'' ''read'' ''low'' (state0 openai)))
       = [SHOW_PERMISSION_DIALOG page_read ''read'' ''low'']"
proof -
  have h1: "checkPermission page_read ''a.example'' 1 (clock world0) (permissions (state0 ollama)) = None"
    by (simp add: checkPermission_def state0_def)
  have h2: "checkPermission page_read ''a.example'' 1 (clock world0) (permissions (state0 openai)) = None"
    by (simp add: checkPermission_def state0_def)
  have p1: "provider (state0 ollama) = ollama" and p2: "provider (state0 openai) \<noteq> ollama"
    and t: "tabLog (state0 ollama) = []" "tabLog (state0 openai) = []"
    by (simp_all add: state0_def)
  have d: "dialog world0 (length (tabLog (state0 openai))) page_read ''read'' ''low'' = DialogResult False page"
    by (simp add: world0_def)
  from ensurePermission_auto_grant [OF h1, where reason="''read''" and sens="''low''"] p1
  have r1: "fst (ensurePermission world0 1 page_read ''a.example'' ''read'' ''low'' (state0 ollama))"
    "tabLog (snd (ensurePermission world0 1 page_read ''a.example'' ''read'' ''low'' (state0 ollama))) = []"
    by (simp_all add: t)
  from ensurePermission_auto_grant [OF h2, where reason="''read''" and sens="''low''"] p2 d
  have r2: "\<not> fst (ensurePermission world0 1 page_read ''a.example'' ''read'' ''low'' (state0 openai))"
    "tabLog (snd (ensurePermission world0 1 page_read ''a.example'' ''read'' ''low'' (state0 openai)))
       = [SHOW_PERMISSION_DIALOG page_read ''read'' ''low'']"
    by (auto simp add: t)
  show ?thesis using h1 h2 r1 r2 by simp
qed

text \<open>
  C6. When the decision surface was asked and the call failed: under the ollama provider a
  page_action request is granted at page scope, with an audit event marked autoGranted that
  carries the reason of the fallback; every other combination returns false and stores
  no grant.
\<close>

theorem ensurePermission_dialog_failure:
  assumes none: "checkPermission permType orig tabId (clock w) (permissions st) = None"
      and asked: "\<not> (provider st = ollama \<and> permType = page_read)"
      and fails: "dialog w (length (tabLog st)) permType reason sens = DialogThrows e"
  shows "ensurePermission w tabId permType orig reason sens st =
           (if provider st = ollama \<and> permType = page_action
            then (True,
                  st\<lparr> permissions := grantPermission page_action page orig tabId (clock w) (permissions st),
                      auditEvents := auditEvents st @
                        [requestedEvent w permType orig reason sens ''local'',
                         autoGrantEvent w page_action page orig ''Dialog unavailable, local provider'' ''local''],
                      tabLog := tabLog st @ [SHOW_PERMISSION_DIALOG permType reason sens] \<rparr>)
            else (False,
                  st\<lparr> auditEvents := auditEvents st @
                        [requestedEvent w permType orig reason sens (locationOf st)],
                      tabLog := tabLog st @ [SHOW_PERMISSION_DIALOG permType reason sens] \<rparr>))"
  using none asked fails
  by (auto simp add: ensurePermission_def addAuditEvent_def Let_def mkEvent_def requestedEvent_def
        autoGrantEvent_def locationOf_def scopeName_def)


theorem ensurePermission_dialog_failure_witness:
  "checkPermission page_action ''a.example'' 1 (clock deafWorld) (permissions (state0 ollama)) = None
   \<and> dialog deafWorld (length (tabLog (state0 ollama))) page_action ''click'' ''medium''
       = DialogThrows ''Could not establish connection''
   \<and> fst (ensurePermission deafWorld 1 page_action ''a.example'' ''click'' ''medium'' (state0 ollama))
   \<and> map p_scope (permissions (snd (ensurePermission deafWorld 1 page_action ''a.example'' ''click''
         ''medium'' (state0 ollama)))) = [page]
   \<and> \<not> fst (ensurePermission deafWorld 1 page_action ''a.example'' ''click'' ''medium'' (state0 openai))
   \<and> \<not> fst (ensurePermission deafWorld 1 data_send ''a.example'' ''send'' ''high'' (state0 ollama))"
proof -
  have n: "\<And>t p. checkPermission t ''a.example'' 1 (clock deafWorld) (permissions (state0 p)) = None"
    by (simp add: checkPermission_def state0_def)
  have d: "\<And>t r s p. dialog deafWorld (length (tabLog (state0 p))) t r s
              = DialogThrows ''Could not establish connection''"
    by (simp add: deafWorld_def)
  have p: "provider (state0 ollama) = ollama" "provider (state0 openai) \<noteq> ollama"
    and ps: "permissions (state0 ollama) = []"
    by (simp_all add: state0_def)
  have a1: "\<not> (provider (state0 ollama) = ollama \<and> page_action = page_read)" by simp
  have a2: "\<not> (provider (state0 openai) = ollama \<and> page_action = page_read)" by simp
  have a3: "\<not> (provider (state0 ollama) = ollama \<and> data_send = page_read)" by simp
  from ensurePermission_dialog_failure [OF n a1 d] p
  have r1: "fst (ensurePermission deafWorld 1 page_action ''a.example'' ''click'' ''medium'' (state0 ollama))"
    "map p_scope (permissions (snd (ensurePermission deafWorld 1 page_action ''a.example'' ''click''
         ''medium'' (state0 ollama)))) = [page]"
    by (simp_all add: ps grantPermission_def newPermission_def)
  from ensurePermission_dialog_failure [OF n a2 d] p
  have r2: "\<not> fst (ensurePermission deafWorld 1 page_action ''a.example'' ''click'' ''medium'' (state0 openai))"
    by simp
  from ensurePermission_dialog_failure [OF n a3 d] p
  have r3: "\<not> fst (ensurePermission deafWorld 1 data_send ''a.example'' ''send'' ''high'' (state0 ollama))"
    by simp
  show ?thesis using n d r1 r2 r3 by simp
qed

section \<open>The fallback tool-call parser\<close>

lemma braceDepth_Nil: "braceDepth [] = 0" by (simp add: braceDepth_def)
lemma braceDepth_Cons: "braceDepth (c # cs) = (if c = CHR ''{'' then 1 else if c = CHR ''}'' then -1 else 0) + braceDepth cs"
  by (simp add: braceDepth_def)

lemma scanBraces_Some:
  "scanBraces cs ci d = Some e \<Longrightarrow> 1 \<le> d \<Longrightarrow>
     ci < e \<and> e \<le> ci + length cs \<and> d + braceDepth (take (e - ci) cs) = 0
     \<and> (\<forall>k. k < e - ci \<longrightarrow> 1 \<le> d + braceDepth (take k cs))"
proof (induction cs arbitrary: ci d)
  case Nil
  then show ?case by simp
next
  case (Cons c cs)
  define d' where "d' = d + (if c = CHR ''{'' then 1 else if c = CHR ''}'' then -1 else 0)"
  show ?case
  proof (cases "c = CHR ''}'' \<and> d = 1")
    case True
    with Cons.prems have "e = ci + 1" by simp
    then show ?thesis using True by (simp add: braceDepth_Cons braceDepth_Nil)
  next
    case False
    with Cons.prems have s: "scanBraces cs (Suc ci) d' = Some e" and g: "1 \<le> d'"
      by (auto simp: Let_def d'_def split: if_splits)
    from Cons.IH [OF s g]
    have ih: "Suc ci < e" "e \<le> Suc ci + length cs" "d' + braceDepth (take (e - Suc ci) cs) = 0"
        "\<And>k. k < e - Suc ci \<Longrightarrow> 1 \<le> d' + braceDepth (take k cs)" by auto
    have t: "take (e - ci) (c # cs) = c # take (e - Suc ci) cs"
      using ih(1) by (simp add: take_Cons')
    have m: "1 \<le> d + braceDepth (take k (c # cs))" if "k < e - ci" for k
    proof (cases k)
      case 0
      then show ?thesis using Cons.prems(2) by (simp add: braceDepth_Nil)
    next
      case (Suc k')
      then have "k' < e - Suc ci" using that by simp
      from ih(4) [OF this] show ?thesis
        using Suc by (simp add: braceDepth_Cons d'_def)
    qed
    show ?thesis
      using ih(1,2,3) t m by (simp add: braceDepth_Cons d'_def)
  qed
qed

lemma indexOfFrom_Some:
  "indexOfFrom pat s i = Some k \<Longrightarrow>
     i \<le> k \<and> k - i \<le> length s \<and> startsWith (drop (k - i) s) pat
     \<and> (\<forall>j. j < k - i \<longrightarrow> \<not> startsWith (drop j s) pat)"
proof (induction s arbitrary: i)
  case Nil
  then show ?case by (simp split: if_splits)
next
  case (Cons c cs)
  show ?case
  proof (cases "startsWith (c # cs) pat")
    case True
    with Cons.prems show ?thesis by simp
  next
    case False
    with Cons.prems have s: "indexOfFrom pat cs (Suc i) = Some k" by simp
    from Cons.IH [OF s]
    have ih: "Suc i \<le> k" "k - Suc i \<le> length cs" "startsWith (drop (k - Suc i) cs) pat"
      "\<And>j. j < k - Suc i \<Longrightarrow> \<not> startsWith (drop j cs) pat" by auto
    have d: "drop (k - i) (c # cs) = drop (k - Suc i) cs"
      using ih(1) by (simp add: drop_Cons')
    have m: "\<not> startsWith (drop j (c # cs)) pat" if "j < k - i" for j
    proof (cases j)
      case 0
      then show ?thesis using False by simp
    next
      case (Suc j')
      then have "j' < k - Suc i" using that by simp
      from ih(4) [OF this] show ?thesis using Suc by simp
    qed
    show ?thesis using ih(1,2,3) d m by auto
  qed
qed

lemma indexOfFrom_None:
  "indexOfFrom pat s i = None \<Longrightarrow> \<forall>j. j \<le> length s \<longrightarrow> \<not> startsWith (drop j s) pat"
proof (induction s arbitrary: i)
  case Nil
  then show ?case by (cases pat) (simp_all split: if_splits)
next
  case (Cons c cs)
  then have a: "\<not> startsWith (c # cs) pat" and b: "indexOfFrom pat cs (Suc i) = None"
    by (simp_all split: if_splits)
  from Cons.IH [OF b] have ih: "\<And>j. j \<le> length cs \<Longrightarrow> \<not> startsWith (drop j cs) pat" by simp
  show ?case
  proof (intro allI impI)
    fix j assume "j \<le> length (c # cs)"
    then show "\<not> startsWith (drop j (c # cs)) pat"
      using a ih by (cases j) simp_all
  qed
qed


lemma startsWith_marker_Cons:
  "startsWith s toolMarker \<Longrightarrow> \<exists>rest. s = CHR ''{'' # rest"
  by (cases s) (simp_all add: toolMarker_def)

lemma parseToolCall_Some:
  assumes "parseToolCall w text = Some tcs"
  shows "\<exists>startIdx endIdx parsed t.
          indexOf text toolMarker = Some startIdx
        \<and> startsWith (drop startIdx text) toolMarker
        \<and> (\<forall>j. j < startIdx \<longrightarrow> \<not> startsWith (drop j text) toolMarker)
        \<and> startIdx < endIdx \<and> endIdx \<le> length text
        \<and> braceDepth (slice text startIdx endIdx) = 0
        \<and> (\<forall>k. startIdx < k \<and> k < endIdx \<longrightarrow> 1 \<le> braceDepth (slice text startIdx k))
        \<and> parseJSON w (slice text startIdx endIdx) = Some parsed
        \<and> field (Some parsed) ''tool'' = Some t \<and> truthy t
        \<and> tcs = [mkToolCall t (orElse (field (Some parsed) ''args'') (JObj []))]"
proof -
  from assms obtain si where si: "indexOf text toolMarker = Some si"
    by (auto simp: parseToolCall_def split: option.splits)
  from assms si obtain ei where ei: "scanBraces (drop si text) si 0 = Some ei"
    by (auto simp: parseToolCall_def split: option.splits)
  from assms si ei obtain parsed where pj: "parseJSON w (slice text si ei) = Some parsed"
    by (auto simp: parseToolCall_def split: option.splits if_splits)
  from assms si ei pj obtain t where t: "field (Some parsed) ''tool'' = Some t" "truthy t"
     and tcs: "tcs = [mkToolCall t (orElse (field (Some parsed) ''args'') (JObj []))]"
    by (auto simp: parseToolCall_def split: option.splits if_splits)
  from indexOfFrom_Some [OF si [unfolded indexOf_def]]
  have ix: "si \<le> length text" "startsWith (drop si text) toolMarker"
    "\<And>j. j < si \<Longrightarrow> \<not> startsWith (drop j text) toolMarker" by auto
  from startsWith_marker_Cons [OF ix(2)] obtain rest where rest: "drop si text = CHR ''{'' # rest" ..
  from ei rest have sc: "scanBraces rest (Suc si) 1 = Some ei" by simp
  from scanBraces_Some [OF sc]
  have b: "Suc si < ei" "ei \<le> Suc si + length rest" "1 + braceDepth (take (ei - Suc si) rest) = 0"
    "\<And>k. k < ei - Suc si \<Longrightarrow> 1 \<le> 1 + braceDepth (take k rest)" by auto
  have len: "length text = si + Suc (length rest)"
  proof -
    have "length (drop si text) = Suc (length rest)" by (simp add: rest)
    then show ?thesis using ix(1) by simp
  qed
  have sl: "slice text si k = CHR ''{'' # take (k - Suc si) rest" if "si < k" for k
    using that by (simp add: slice_def rest take_Cons')
  have d0: "braceDepth (slice text si ei) = 0"
    using b(1,3) by (simp add: sl braceDepth_Cons)
  have dk: "1 \<le> braceDepth (slice text si k)" if "si < k" "k < ei" for k
  proof -
    from that have "k - Suc si < ei - Suc si" by simp
    from b(4) [OF this] show ?thesis using that by (simp add: sl braceDepth_Cons)
  qed
  have "Suc si < ei \<Longrightarrow> si < ei" by simp
  with b(1) have lt: "si < ei" by simp
  have le: "ei \<le> length text" using b(2) len by simp
  show ?thesis
    by (rule exI [of _ si], rule exI [of _ ei], rule exI [of _ parsed], rule exI [of _ t])
       (use si ix(2,3) lt le d0 dk pj t tcs in simp)
qed

lemma indexOfFrom_first:
  "k \<le> length s \<Longrightarrow> startsWith (drop k s) pat \<Longrightarrow>
   (\<forall>j. j < k \<longrightarrow> \<not> startsWith (drop j s) pat) \<Longrightarrow> indexOfFrom pat s i = Some (i + k)"
proof (induction s arbitrary: i k)
  case Nil
  then show ?case by (cases pat) simp_all
next
  case (Cons c cs)
  show ?case
  proof (cases k)
    case 0
    with Cons.prems show ?thesis by simp
  next
    case (Suc k')
    from Cons.prems(3) Suc have n0: "\<not> startsWith (c # cs) pat" by (metis drop0 zero_less_Suc)
    have a: "k' \<le> length cs" using Cons.prems(1) Suc by simp
    have b: "startsWith (drop k' cs) pat" using Cons.prems(2) Suc by simp
    have c: "\<forall>j. j < k' \<longrightarrow> \<not> startsWith (drop j cs) pat"
    proof (intro allI impI)
      fix j assume "j < k'"
      then have "Suc j < k" using Suc by simp
      with Cons.prems(3) have "\<not> startsWith (drop (Suc j) (c # cs)) pat" by blast
      then show "\<not> startsWith (drop j cs) pat" by simp
    qed
    from Cons.IH [OF a b c, of "Suc i"] n0 Suc show ?thesis by simp
  qed
qed

lemma scanBraces_first:
  "1 \<le> d \<Longrightarrow> 0 < n \<Longrightarrow> n \<le> length cs \<Longrightarrow> d + braceDepth (take n cs) = 0 \<Longrightarrow>
   (\<forall>k. k < n \<longrightarrow> 1 \<le> d + braceDepth (take k cs)) \<Longrightarrow> scanBraces cs ci d = Some (ci + n)"
proof (induction cs arbitrary: ci d n)
  case Nil
  then show ?case by simp
next
  case (Cons c cs)
  define d' where "d' = d + (if c = CHR ''{'' then 1 else if c = CHR ''}'' then -1 else 0)"
  obtain n' where n: "n = Suc n'" using Cons.prems(2) by (cases n) auto
  show ?case
  proof (cases n')
    case 0
    with n Cons.prems(4) have "d + braceDepth [c] = 0" by simp
    with Cons.prems(1) have "c = CHR ''}'' \<and> d = 1"
      by (auto simp: braceDepth_Cons braceDepth_Nil split: if_splits)
    then show ?thesis using n 0 by simp
  next
    case (Suc m)
    from Cons.prems(5) [rule_format, of 1] n Suc have g: "1 \<le> d'"
      by (simp add: braceDepth_Cons braceDepth_Nil d'_def)
    have a: "0 < n'" using Suc by simp
    have b: "n' \<le> length cs" using Cons.prems(3) n by simp
    have c: "d' + braceDepth (take n' cs) = 0"
      using Cons.prems(4) n by (simp add: braceDepth_Cons d'_def)
    have e: "\<forall>k. k < n' \<longrightarrow> 1 \<le> d' + braceDepth (take k cs)"
    proof (intro allI impI)
      fix k assume "k < n'"
      then have "Suc k < n" using n by simp
      from Cons.prems(5) [rule_format, OF this] show "1 \<le> d' + braceDepth (take k cs)"
        by (simp add: braceDepth_Cons d'_def)
    qed
    from Cons.IH [OF g a b c e, of "Suc ci"]
    have ih: "scanBraces cs (Suc ci) d' = Some (Suc ci + n')" .
    have nz: "\<not> (c = CHR ''}'' \<and> d = 1)" using g by (auto simp: d'_def)
    show ?thesis using ih nz n by (auto simp: Let_def d'_def)
  qed
qed

lemma parseToolCall_complete:
  assumes le: "endIdx \<le> length text" and lt: "startIdx < endIdx"
      and m: "startsWith (drop startIdx text) toolMarker"
      and first: "\<forall>j. j < startIdx \<longrightarrow> \<not> startsWith (drop j text) toolMarker"
      and d0: "braceDepth (slice text startIdx endIdx) = 0"
      and dk: "\<forall>k. startIdx < k \<and> k < endIdx \<longrightarrow> 1 \<le> braceDepth (slice text startIdx k)"
      and pj: "parseJSON w (slice text startIdx endIdx) = Some parsed"
      and t: "field (Some parsed) ''tool'' = Some t" "truthy t"
  shows "parseToolCall w text = Some [mkToolCall t (orElse (field (Some parsed) ''args'') (JObj []))]"
proof -
  have sl: "startIdx \<le> length text" using le lt by simp
  from indexOfFrom_first [OF sl m first, of 0]
  have ix: "indexOf text toolMarker = Some startIdx" by (simp add: indexOf_def)
  from startsWith_marker_Cons [OF m] obtain rest where rest: "drop startIdx text = CHR ''{'' # rest" ..
  have len: "length text = startIdx + Suc (length rest)"
  proof -
    have "length (drop startIdx text) = Suc (length rest)" by (simp add: rest)
    then show ?thesis using sl by simp
  qed
  have slc: "slice text startIdx k = CHR ''{'' # take (k - Suc startIdx) rest" if "startIdx < k" for k
    using that by (simp add: slice_def rest take_Cons')
  have ne: "Suc startIdx < endIdx"
  proof (rule ccontr)
    assume "\<not> Suc startIdx < endIdx"
    with lt have "endIdx = Suc startIdx" by simp
    with d0 show False by (simp add: slc braceDepth_Cons braceDepth_Nil)
  qed
  define n where "n = endIdx - Suc startIdx"
  have a: "0 < n" using ne by (simp add: n_def)
  have b: "n \<le> length rest" using le len by (simp add: n_def)
  have c: "1 + braceDepth (take n rest) = 0"
    using d0 lt by (simp add: slc braceDepth_Cons n_def)
  have e: "\<forall>k. k < n \<longrightarrow> 1 \<le> 1 + braceDepth (take k rest)"
  proof (intro allI impI)
    fix k assume k: "k < n"
    then have "startIdx < Suc startIdx + k \<and> Suc startIdx + k < endIdx" by (simp add: n_def)
    from dk [rule_format, OF this] show "1 \<le> 1 + braceDepth (take k rest)"
      by (simp add: slc braceDepth_Cons)
  qed
  from scanBraces_first [OF _ a b c e, of "Suc startIdx"]
  have "scanBraces rest (Suc startIdx) 1 = Some (Suc startIdx + n)" by simp
  then have sc: "scanBraces (drop startIdx text) startIdx 0 = Some endIdx"
    using ne by (simp add: rest n_def)
  show ?thesis using ix sc lt pj t by (simp add: parseToolCall_def)
qed

lemma sample_index: "indexOf sampleReply toolMarker = Some 6"
  by (simp add: indexOf_def sampleReply_def embeddedCall_def toolMarker_def)

text \<open>
  C8. For every reply text: the parser yields a tool call only when the marker occurs, the
  scan starts at its first occurrence, and the nesting depth, counted from there, returns
  to zero at some index before the end of the text (and stays positive until then); the
  text between is what is handed to the JSON parser, and its tool field must be truthy.
  A text without the marker yields no tool call. The parser has no error result: when it
  yields no tool call, the reply text is returned as the content.
\<close>

theorem parseToolCall_well_formed:
  "(\<forall>tcs. parseToolCall w text = Some tcs \<longrightarrow>
      (\<exists>startIdx endIdx parsed t.
          indexOf text toolMarker = Some startIdx
        \<and> startsWith (drop startIdx text) toolMarker
        \<and> (\<forall>j. j < startIdx \<longrightarrow> \<not> startsWith (drop j text) toolMarker)
        \<and> startIdx < endIdx \<and> endIdx \<le> length text
        \<and> braceDepth (slice text startIdx endIdx) = 0
        \<and> (\<forall>k. startIdx < k \<and> k < endIdx \<longrightarrow> 1 \<le> braceDepth (slice text startIdx k))
        \<and> parseJSON w (slice text startIdx endIdx) = Some parsed
        \<and> field (Some parsed) ''tool'' = Some t \<and> truthy t
        \<and> tcs = [mkToolCall t (orElse (field (Some parsed) ''args'') (JObj []))]
        \<and> parsedOrText w text = callsResult [] tcs))
   \<and> ((\<forall>j. j \<le> length text \<longrightarrow> \<not> startsWith (drop j text) toolMarker) \<longrightarrow>
         parseToolCall w text = None)
   \<and> (parseToolCall w text = None \<longrightarrow> parsedOrText w text = textResult text ''local'')"
proof (intro conjI allI impI)
  fix tcs assume a: "parseToolCall w text = Some tcs"
  from parseToolCall_Some [OF a] a
  show "\<exists>startIdx endIdx parsed t.
          indexOf text toolMarker = Some startIdx
        \<and> startsWith (drop startIdx text) toolMarker
        \<and> (\<forall>j. j < startIdx \<longrightarrow> \<not> startsWith (drop j text) toolMarker)
        \<and> startIdx < endIdx \<and> endIdx \<le> length text
        \<and> braceDepth (slice text startIdx endIdx) = 0
        \<and> (\<forall>k. startIdx < k \<and> k < endIdx \<longrightarrow> 1 \<le> braceDepth (slice text startIdx k))
        \<and> parseJSON w (slice text startIdx endIdx) = Some parsed
        \<and> field (Some parsed) ''tool'' = Some t \<and> truthy t
        \<and> tcs = [mkToolCall t (orElse (field (Some parsed) ''args'') (JObj []))]
        \<and> parsedOrText w text = callsResult [] tcs"
    by (simp add: parsedOrText_def)
next
  assume n: "\<forall>j. j \<le> length text \<longrightarrow> \<not> startsWith (drop j text) toolMarker"
  have "indexOf text toolMarker = None"
  proof (cases "indexOf text toolMarker")
    case None then show ?thesis .
  next
    case (Some k)
    from indexOfFrom_Some [OF Some [unfolded indexOf_def]] n show ?thesis by auto
  qed
  then show "parseToolCall w text = None" by (simp add: parseToolCall_def)
next
  assume "parseToolCall w text = None"
  then show "parsedOrText w text = textResult text ''local''" by (simp add: parsedOrText_def)
qed

theorem parseToolCall_well_formed_witness:
  "parseToolCall parserWorld sampleReply
     = Some [mkToolCall (JStr ''find_on_page'') (JObj [(''query'', JStr ''price'')])]
   \<and> parsedOrText parserWorld sampleReply
     = callsResult [] [mkToolCall (JStr ''find_on_page'') (JObj [(''query'', JStr ''price'')])]
   \<and> indexOf ''I cannot help.'' toolMarker = None
   \<and> parseToolCall parserWorld ''I cannot help.'' = None
   \<and> parsedOrText parserWorld ''I cannot help.'' = textResult ''I cannot help.'' ''local''"
proof -
  have a: "parseToolCall parserWorld sampleReply
     = Some [mkToolCall (JStr ''find_on_page'') (JObj [(''query'', JStr ''price'')])]"
    by (simp add: parseToolCall_def sample_index)
       (simp add: sampleReply_def embeddedCall_def slice_def parserWorld_def parsedCall_def orElse_def)
  have b: "indexOf ''I cannot help.'' toolMarker = None"
    by (simp add: indexOf_def toolMarker_def)
  from indexOfFrom_None [OF b [unfolded indexOf_def]]
  have c: "\<forall>j. j \<le> length ''I cannot help.'' \<longrightarrow> \<not> startsWith (drop j ''I cannot help.'') toolMarker" .
  from parseToolCall_well_formed [of parserWorld sampleReply] a
  have r1: "parsedOrText parserWorld sampleReply
     = callsResult [] [mkToolCall (JStr ''find_on_page'') (JObj [(''query'', JStr ''price'')])]"
    by auto
  from parseToolCall_well_formed [of parserWorld "''I cannot help.''"] c
  have r2: "parseToolCall parserWorld ''I cannot help.'' = None"
    "parsedOrText parserWorld ''I cannot help.'' = textResult ''I cannot help.'' ''local''"
    by blast+
  show ?thesis using a b r1 r2 by simp
qed

section \<open>The gateway's fallback request\<close>

lemma join_member: "x \<in> set xs \<Longrightarrow> \<exists>pre post. join sep xs = pre @ x @ post"
proof (induction sep xs rule: join.induct)
  case (1 sep)
  then show ?case by simp
next
  case (2 sep y)
  then have "join sep [y] = [] @ x @ []" by simp
  then show ?case by blast
next
  case (3 sep a b bs)
  show ?case
  proof (cases "x = a")
    case True
    then have "join sep (a # b # bs) = [] @ x @ (sep @ join sep (b # bs))" by simp
    then show ?thesis by blast
  next
    case False
    with 3 obtain pre post where "join sep (b # bs) = pre @ x @ post" by auto
    then have "join sep (a # b # bs) = (a @ sep @ pre) @ x @ post" by simp
    then show ?thesis by blast
  qed
qed


lemma startsWith_append: "startsWith (a @ b) a"
  by (induction a) auto

lemma indexOfFrom_append: "indexOfFrom pat (pre @ pat @ post) i \<noteq> None"
proof (induction pre arbitrary: i)
  case Nil
  have "startsWith (pat @ post) pat" by (rule startsWith_append)
  then show ?case by (cases "pat @ post") auto
next
  case (Cons c pre)
  then show ?case by simp
qed

lemma includesStr_append: "includesStr (pre @ pat @ post) pat"
  by (simp add: includesStr_def indexOf_def indexOfFrom_append)

lemma toolLine_listed:
  assumes "t \<in> set tools"
  shows "\<exists>pre post. toolDescriptions w tools = pre @ toolLine w t @ post"
proof -
  from assms have "toolLine w t \<in> set (map (toolLine w) tools)" by simp
  from join_member [OF this] show ?thesis by (simp add: toolDescriptions_def)
qed

lemma toolInstructions_parts:
  "\<exists>pre mid post. toolInstructions b d
      = pre @ toolCallExample @ mid @ (''Available tools:'' @ [CHR 0x0A] @ d) @ post"
proof (cases b)
  case True
  show ?thesis unfolding toolInstructions_def using True
    by (simp only: if_True) (metis append.assoc)
next
  case False
  show ?thesis unfolding toolInstructions_def using False
    by (simp only: if_False) (metis append.assoc)
qed

lemma fallbackMessage_content:
  assumes "role m = ''system''" and "t \<in> set tools"
  shows "includesStr (content (fallbackMessage (toolDescriptions w tools) m)) toolCallExample"
    and "includesStr (content (fallbackMessage (toolDescriptions w tools) m))
           (''Available tools:'' @ [CHR 0x0A] @ toolDescriptions w tools)"
    and "includesStr (content (fallbackMessage (toolDescriptions w tools) m)) (toolLine w t)"
proof -
  let ?d = "toolDescriptions w tools"
  obtain pre mid post where pp:
    "toolInstructions (includesStr (content m) ''Current page content:'') ?d
       = pre @ toolCallExample @ mid @ (''Available tools:'' @ [CHR 0x0A] @ ?d) @ post"
    using toolInstructions_parts by blast
  have c: "content (fallbackMessage ?d m)
        = content m @ pre @ toolCallExample @ mid @ (''Available tools:'' @ [CHR 0x0A] @ ?d) @ post"
    using assms(1) pp by (simp add: fallbackMessage_def)
  have "content (fallbackMessage ?d m)
        = (content m @ pre) @ toolCallExample @ (mid @ (''Available tools:'' @ [CHR 0x0A] @ ?d) @ post)"
    by (simp only: c append_assoc)
  then show "includesStr (content (fallbackMessage ?d m)) toolCallExample"
    by (simp only: includesStr_append)
  have "content (fallbackMessage ?d m)
        = (content m @ pre @ toolCallExample @ mid) @ (''Available tools:'' @ [CHR 0x0A] @ ?d) @ post"
    by (simp only: c append_assoc)
  then show "includesStr (content (fallbackMessage ?d m)) (''Available tools:'' @ [CHR 0x0A] @ ?d)"
    by (simp only: includesStr_append)
  from toolLine_listed [OF assms(2)] obtain p q where l: "?d = p @ toolLine w t @ q" by blast
  have "content (fallbackMessage ?d m)
        = (content m @ pre @ toolCallExample @ mid @ ''Available tools:'' @ [CHR 0x0A] @ p)
          @ toolLine w t @ (q @ post)"
    by (simp only: c append_assoc) (simp only: l append_assoc)
  then show "includesStr (content (fallbackMessage ?d m)) (toolLine w t)"
    by (simp only: includesStr_append)
qed

lemma fallback_requests:
  assumes local: "provider st = ollama" and tools: "tools \<noteq> []"
      and reply: "backend w (length (fetchLog st)) messages tools = Response status body"
   and s: "status = 400"
  shows "fetchLog (snd (llmChat w messages tools st))
           = fetchLog st @ [(messages, tools),
                            (map (fallbackMessage (toolDescriptions w tools)) messages, [])]"
    using assms s
    by (auto simp: llmChat_def ollamaChat_def sendChat_def isOk_def Let_def
             split: http_reply.splits option.splits)

lemma fallback_message_shape:
  assumes tools: "tools \<noteq> []"
  shows "if role m = ''system''
               then role (fallbackMessage (toolDescriptions w tools) m) = ''system''
                  \<and> content (fallbackMessage (toolDescriptions w tools) m)
                      = content m @ toolInstructions (includesStr (content m) ''Current page content:'')
                                      (toolDescriptions w tools)
                  \<and> includesStr (content (fallbackMessage (toolDescriptions w tools) m)) toolCallExample
                  \<and> includesStr (content (fallbackMessage (toolDescriptions w tools) m))
                       (''Available tools:'' @ [CHR 0x0A] @ toolDescriptions w tools)
                  \<and> (\<forall>t \<in> set tools.
                        includesStr (content (fallbackMessage (toolDescriptions w tools) m)) (toolLine w t))
               else fallbackMessage (toolDescriptions w tools) m = m"
    proof (cases "role m = ''system''")
      case True
      obtain t0 where t0: "t0 \<in> set tools" using tools by (cases tools) auto
      have a: "role (fallbackMessage (toolDescriptions w tools) m) = ''system''"
        and b: "content (fallbackMessage (toolDescriptions w tools) m)
                      = content m @ toolInstructions (includesStr (content m) ''Current page content:'')
                                      (toolDescriptions w tools)"
        using True by (simp_all add: fallbackMessage_def)
      note c = fallbackMessage_content(1,2) [OF True t0, of w]
      have d: "\<forall>t \<in> set tools.
                 includesStr (content (fallbackMessage (toolDescriptions w tools) m)) (toolLine w t)"
        using fallbackMessage_content(3) [OF True] by blast
      from a b c d have "role (fallbackMessage (toolDescriptions w tools) m) = ''system''
                  \<and> content (fallbackMessage (toolDescriptions w tools) m)
                      = content m @ toolInstructions (includesStr (content m) ''Current page content:'')
                                      (toolDescriptions w tools)
                  \<and> includesStr (content (fallbackMessage (toolDescriptions w tools) m)) toolCallExample
                  \<and> includesStr (content (fallbackMessage (toolDescriptions w tools) m))
                       (''Available tools:'' @ [CHR 0x0A] @ toolDescriptions w tools)
                  \<and> (\<forall>t \<in> set tools.
                        includesStr (content (fallbackMessage (toolDescriptions w tools) m)) (toolLine w t))"
        by (intro conjI)
      then show ?thesis unfolding if_P [OF True] .
    next
      case False
      then show ?thesis by (simp add: fallbackMessage_def)
    qed

lemma fallback_reply_parsed:
  assumes local: "provider st = ollama" and tools: "tools \<noteq> []"
      and reply: "backend w (length (fetchLog st)) messages tools = Response 400 body"
      and r: "backend w (Suc (length (fetchLog st)))
                  (map (fallbackMessage (toolDescriptions w tools)) messages) []
                  = Response status2 (Some data)" "isOk status2"
  shows "fst (llmChat w messages tools st) = Inr (parsedOrText w (msg_content data))"
proof -
  have n: "\<not> isOk 400" by (simp add: isOk_def)
  show ?thesis using assms n
      by (simp add: llmChat_def ollamaChat_def sendChat_def Let_def)
qed

lemma fallback_reply_error:
  assumes local: "provider st = ollama" and tools: "tools \<noteq> []"
      and reply: "backend w (length (fetchLog st)) messages tools = Response 400 body"
      and r: "backend w (Suc (length (fetchLog st)))
                  (map (fallbackMessage (toolDescriptions w tools)) messages) []
                  = Response status2 body2" "\<not> isOk status2"
  shows "fst (llmChat w messages tools st) = Inl (''Error: Ollama error: '' @ showNat status2)"
proof -
  have n: "\<not> isOk 400" by (simp add: isOk_def)
  show ?thesis using assms n
      by (simp add: llmChat_def ollamaChat_def sendChat_def Let_def)
qed

lemma no_retry_requests:
  assumes local: "provider st = ollama" 
      and reply: "backend w (length (fetchLog st)) messages tools = Response status body"
      and s: "status \<noteq> 400"
  shows "fetchLog (snd (llmChat w messages tools st)) = fetchLog st @ [(messages, tools)]"
    using assms 
    by (simp add: llmChat_def ollamaChat_def sendChat_def Let_def
             split: option.splits)

lemma no_retry_error:
  assumes local: "provider st = ollama" 
      and reply: "backend w (length (fetchLog st)) messages tools = Response status body"
      and s: "status \<noteq> 400" "\<not> isOk status"
  shows "fst (llmChat w messages tools st) = Inl (''Error: Ollama error: '' @ showNat status)"
    using assms 
    by (simp add: llmChat_def ollamaChat_def sendChat_def Let_def)

lemma wellformed_reply_returned:
 assumes e: "fst (llmChat w messages tools st) = Inr (parsedOrText w (msg_content data))"
  and wf: "startsWith (drop startIdx (msg_content data)) toolMarker
                  \<and> (\<forall>j. j < startIdx \<longrightarrow> \<not> startsWith (drop j (msg_content data)) toolMarker)
                  \<and> startIdx < endIdx \<and> endIdx \<le> length (msg_content data)
                  \<and> braceDepth (slice (msg_content data) startIdx endIdx) = 0
                  \<and> (\<forall>k. startIdx < k \<and> k < endIdx \<longrightarrow>
                         1 \<le> braceDepth (slice (msg_content data) startIdx k))
                  \<and> parseJSON w (slice (msg_content data) startIdx endIdx) = Some parsed
                  \<and> field (Some parsed) ''tool'' = Some t \<and> truthy t"
 shows "fst (llmChat w messages tools st)
                      = Inr (callsResult [] [mkToolCall t (orElse (field (Some parsed) ''args'') (JObj []))])"
proof -
  note w1 = wf [THEN conjunct1]
  note r1 = wf [THEN conjunct2]
  note w2 = r1 [THEN conjunct1]
  note r2 = r1 [THEN conjunct2]
  note w3 = r2 [THEN conjunct1]
  note r3 = r2 [THEN conjunct2]
  note w4 = r3 [THEN conjunct1]
  note r4 = r3 [THEN conjunct2]
  note w5 = r4 [THEN conjunct1]
  note r5 = r4 [THEN conjunct2]
  note w6 = r5 [THEN conjunct1]
  note r6 = r5 [THEN conjunct2]
  note w7 = r6 [THEN conjunct1]
  note r7 = r6 [THEN conjunct2]
  note w8 = r7 [THEN conjunct1]
  note w9 = r7 [THEN conjunct2]
  have "parseToolCall w (msg_content data)
            = Some [mkToolCall t (orElse (field (Some parsed) ''args'') (JObj []))]"
    by (rule parseToolCall_complete [OF w4 w3 w1 w2 w5 w6 w7 w8 w9])
  then show ?thesis using e by (simp add: parsedOrText_def)
qed

text \<open>
  C7 (amended). Under the ollama provider, for every reply to a request that carries tools:
  when the status is 400 the gateway sends exactly one more request, with no tools in the
  body and the same messages, where every system message keeps its text and gets the tool
  instructions appended (they contain the example of a tool-call object and, after the
  heading of the catalog, one line for each tool with its name, description and parameters)
  and every other message is unchanged. When that request succeeds its reply is parsed
  for an embedded tool call: if the marker first occurs at an index from which the nesting
  depth first returns to zero inside the text, the text between is accepted by the JSON
  parser and its tool field is truthy, that call is returned as the tool calls of the
  result, with empty content; a reply without a call is returned as text, and a failed
  second request is the gateway's error. When the status of the first reply is not 400
  no second request is sent, and an error status is the gateway's error.
\<close>

theorem llmChat_fallback_on_400:
  assumes local: "provider st = ollama" and tools: "tools \<noteq> []"
      and reply: "backend w (length (fetchLog st)) messages tools = Response status body"
  shows "(status = 400 \<longrightarrow>
            fetchLog (snd (llmChat w messages tools st))
              = fetchLog st @ [(messages, tools),
                               (map (fallbackMessage (toolDescriptions w tools)) messages, [])]
          \<and> (\<forall>m \<in> set messages.
               if role m = ''system''
               then role (fallbackMessage (toolDescriptions w tools) m) = ''system''
                  \<and> content (fallbackMessage (toolDescriptions w tools) m)
                      = content m @ toolInstructions (includesStr (content m) ''Current page content:'')
                                      (toolDescriptions w tools)
                  \<and> includesStr (content (fallbackMessage (toolDescriptions w tools) m)) toolCallExample
                  \<and> includesStr (content (fallbackMessage (toolDescriptions w tools) m))
                       (''Available tools:'' @ [CHR 0x0A] @ toolDescriptions w tools)
                  \<and> (\<forall>t \<in> set tools.
                        includesStr (content (fallbackMessage (toolDescriptions w tools) m)) (toolLine w t))
               else fallbackMessage (toolDescriptions w tools) m = m)
          \<and> (\<forall>status2 data.
                backend w (Suc (length (fetchLog st)))
                  (map (fallbackMessage (toolDescriptions w tools)) messages) []
                  = Response status2 (Some data) \<and> isOk status2 \<longrightarrow>
                fst (llmChat w messages tools st) = Inr (parsedOrText w (msg_content data))
              \<and> (\<forall>startIdx endIdx parsed t.
                    startsWith (drop startIdx (msg_content data)) toolMarker
                  \<and> (\<forall>j. j < startIdx \<longrightarrow> \<not> startsWith (drop j (msg_content data)) toolMarker)
                  \<and> startIdx < endIdx \<and> endIdx \<le> length (msg_content data)
                  \<and> braceDepth (slice (msg_content data) startIdx endIdx) = 0
                  \<and> (\<forall>k. startIdx < k \<and> k < endIdx \<longrightarrow>
                         1 \<le> braceDepth (slice (msg_content data) startIdx k))
                  \<and> parseJSON w (slice (msg_content data) startIdx endIdx) = Some parsed
                  \<and> field (Some parsed) ''tool'' = Some t \<and> truthy t \<longrightarrow>
                    fst (llmChat w messages tools st)
                      = Inr (callsResult [] [mkToolCall t (orElse (field (Some parsed) ''args'') (JObj []))]))
              \<and> (parseToolCall w (msg_content data) = None \<longrightarrow>
                    fst (llmChat w messages tools st) = Inr (textResult (msg_content data) ''local'')))
          \<and> (\<forall>status2 body2.
                backend w (Suc (length (fetchLog st)))
                  (map (fallbackMessage (toolDescriptions w tools)) messages) []
                  = Response status2 body2 \<and> \<not> isOk status2 \<longrightarrow>
                fst (llmChat w messages tools st) = Inl (''Error: Ollama error: '' @ showNat status2)))
       \<and> (status \<noteq> 400 \<longrightarrow>
            fetchLog (snd (llmChat w messages tools st)) = fetchLog st @ [(messages, tools)])
       \<and> (status \<noteq> 400 \<and> \<not> isOk status \<longrightarrow>
            fst (llmChat w messages tools st) = Inl (''Error: Ollama error: '' @ showNat status))"
proof (intro conjI impI ballI allI)
  assume s: "status = 400"
  show "fetchLog (snd (llmChat w messages tools st))
           = fetchLog st @ [(messages, tools),
                            (map (fallbackMessage (toolDescriptions w tools)) messages, [])]"
    by (rule fallback_requests [OF local tools reply s])
next
  fix m
  show "if role m = ''system''
               then role (fallbackMessage (toolDescriptions w tools) m) = ''system''
                  \<and> content (fallbackMessage (toolDescriptions w tools) m)
                      = content m @ toolInstructions (includesStr (content m) ''Current page content:'')
                                      (toolDescriptions w tools)
                  \<and> includesStr (content (fallbackMessage (toolDescriptions w tools) m)) toolCallExample
                  \<and> includesStr (content (fallbackMessage (toolDescriptions w tools) m))
                       (''Available tools:'' @ [CHR 0x0A] @ toolDescriptions w tools)
                  \<and> (\<forall>t \<in> set tools.
                        includesStr (content (fallbackMessage (toolDescriptions w tools) m)) (toolLine w t))
               else fallbackMessage (toolDescriptions w tools) m = m"
    by (rule fallback_message_shape [OF tools])
next
  fix status2 data
  assume s: "status = 400"
     and r: "backend w (Suc (length (fetchLog st)))
                  (map (fallbackMessage (toolDescriptions w tools)) messages) []
                  = Response status2 (Some data) \<and> isOk status2"
  show e: "fst (llmChat w messages tools st) = Inr (parsedOrText w (msg_content data))"
    by (rule fallback_reply_parsed [OF local tools reply [unfolded s] r [THEN conjunct1] r [THEN conjunct2]])
  {
    assume "parseToolCall w (msg_content data) = None"
    then show "fst (llmChat w messages tools st) = Inr (textResult (msg_content data) ''local'')"
      using e by (simp add: parsedOrText_def)
  }
  fix startIdx endIdx parsed t
  assume wf: "startsWith (drop startIdx (msg_content data)) toolMarker
                  \<and> (\<forall>j. j < startIdx \<longrightarrow> \<not> startsWith (drop j (msg_content data)) toolMarker)
                  \<and> startIdx < endIdx \<and> endIdx \<le> length (msg_content data)
                  \<and> braceDepth (slice (msg_content data) startIdx endIdx) = 0
                  \<and> (\<forall>k. startIdx < k \<and> k < endIdx \<longrightarrow>
                         1 \<le> braceDepth (slice (msg_content data) startIdx k))
                  \<and> parseJSON w (slice (msg_content data) startIdx endIdx) = Some parsed
                  \<and> field (Some parsed) ''tool'' = Some t \<and> truthy t"
  show "fst (llmChat w messages tools st)
                      = Inr (callsResult [] [mkToolCall t (orElse (field (Some parsed) ''args'') (JObj []))])"
    by (rule wellformed_reply_returned [OF e wf])
next
  fix status2 body2
  assume s: "status = 400"
     and r: "backend w (Suc (length (fetchLog st)))
                  (map (fallbackMessage (toolDescriptions w tools)) messages) []
                  = Response status2 body2 \<and> \<not> isOk status2"
  show "fst (llmChat w messages tools st) = Inl (''Error: Ollama error: '' @ showNat status2)"
    by (rule fallback_reply_error [OF local tools reply [unfolded s] r [THEN conjunct1] r [THEN conjunct2]])
next
  assume s: "status \<noteq> 400"
  show "fetchLog (snd (llmChat w messages tools st)) = fetchLog st @ [(messages, tools)]"
    by (rule no_retry_requests [OF local reply s])
next
  assume s: "status \<noteq> 400 \<and> \<not> isOk status"
  show "fst (llmChat w messages tools st) = Inl (''Error: Ollama error: '' @ showNat status)"
    by (rule no_retry_error [OF local reply s [THEN conjunct1] s [THEN conjunct2]])
qed

theorem llmChat_fallback_on_400_witness:
  "provider (state0 ollama) = ollama \<and> [sampleTool] \<noteq> []
   \<and> backend rejectingWorld (length (fetchLog (state0 ollama))) sampleMessages [sampleTool] = Response 400 None
   \<and> length (fetchLog (snd (llmChat rejectingWorld sampleMessages [sampleTool] (state0 ollama)))) = 2
   \<and> fst (llmChat rejectingWorld sampleMessages [sampleTool] (state0 ollama))
       = Inr (callsResult [] [mkToolCall (JStr ''find_on_page'') (JObj [(''query'', JStr ''price'')])])
   \<and> includesStr (content (fallbackMessage (toolDescriptions rejectingWorld [sampleTool])
            \<lparr> role = ''system'', content = ''Be concise.'' \<rparr>)) (toolLine rejectingWorld sampleTool)
   \<and> backend unavailableWorld (length (fetchLog (state0 ollama))) sampleMessages [sampleTool] = Response 503 None
   \<and> fst (llmChat unavailableWorld sampleMessages [sampleTool] (state0 ollama)) = Inl ''Error: Ollama error: 503''
   \<and> length (fetchLog (snd (llmChat unavailableWorld sampleMessages [sampleTool] (state0 ollama)))) = 1"
proof -
  have a: "provider (state0 ollama) = ollama" and f: "fetchLog (state0 ollama) = []"
    by (simp_all add: state0_def)
  have b: "[sampleTool] \<noteq> []" by simp
  have c: "backend rejectingWorld (length (fetchLog (state0 ollama))) sampleMessages [sampleTool] = Response 400 None"
    by (simp add: rejectingWorld_def parserWorld_def world0_def)
  have d: "backend rejectingWorld (Suc (length (fetchLog (state0 ollama))))
             (map (fallbackMessage (toolDescriptions rejectingWorld [sampleTool])) sampleMessages) []
           = Response 200 (Some \<lparr> msg_content = sampleReply, msg_tool_calls = [] \<rparr>) \<and> isOk 200"
    by (simp add: rejectingWorld_def parserWorld_def world0_def isOk_def)
  have i6: "indexOfFrom toolMarker sampleReply 0 = Some 6"
    using sample_index by (simp add: indexOf_def)
  from indexOfFrom_Some [OF i6]
  have m6: "startsWith (drop 6 sampleReply) toolMarker"
    and first: "\<forall>j. j < 6 \<longrightarrow> \<not> startsWith (drop j sampleReply) toolMarker" by simp_all
  have sl: "slice sampleReply 6 54 = embeddedCall"
    by (simp add: slice_def sampleReply_def embeddedCall_def)
  have sc: "scanBraces (drop 7 sampleReply) 7 1 = Some 54"
    by (simp add: sampleReply_def embeddedCall_def)
  from scanBraces_Some [OF sc]
  have dk0: "\<forall>k. k < 47 \<longrightarrow> 1 \<le> 1 + braceDepth (take k (drop 7 sampleReply))" by simp
  have d7: "drop 6 sampleReply = CHR ''{'' # drop 7 sampleReply"
    by (simp add: sampleReply_def embeddedCall_def)
  have dk: "\<forall>k. 6 < k \<and> k < 54 \<longrightarrow> 1 \<le> braceDepth (slice sampleReply 6 k)"
  proof (intro allI impI)
    fix k :: nat assume k: "6 < k \<and> k < 54"
    then have "k - 7 < 47" by linarith
    with dk0 have "1 \<le> 1 + braceDepth (take (k - 7) (drop 7 sampleReply))" by blast
    moreover have "slice sampleReply 6 k = CHR ''{'' # take (k - 7) (drop 7 sampleReply)"
      using k by (simp add: slice_def d7 take_Cons')
    ultimately show "1 \<le> braceDepth (slice sampleReply 6 k)" by (simp add: braceDepth_Cons)
  qed
  have d0: "braceDepth (slice sampleReply 6 54) = 0"
    by (simp add: sl) (simp add: embeddedCall_def braceDepth_def)
  have pj: "parseJSON rejectingWorld (slice sampleReply 6 54) = Some parsedCall"
    by (simp add: sl rejectingWorld_def parserWorld_def)
  have tl: "field (Some parsedCall) ''tool'' = Some (JStr ''find_on_page'')" "truthy (JStr ''find_on_page'')"
    by (simp_all add: parsedCall_def)
  have len: "(6::nat) < 54 \<and> 54 \<le> length sampleReply"
    by (simp add: sampleReply_def embeddedCall_def)
  note t = llmChat_fallback_on_400 [OF a b c, THEN conjunct1, rule_format, OF refl]
  from t have r1: "length (fetchLog (snd (llmChat rejectingWorld sampleMessages [sampleTool] (state0 ollama)))) = 2"
    by (simp add: f)
  from t [THEN conjunct2, THEN conjunct2, THEN conjunct1, rule_format, OF d, THEN conjunct2, THEN conjunct1,
          rule_format, of 6 54 parsedCall "JStr ''find_on_page''"]
       m6 first len d0 dk pj tl
  have r2: "fst (llmChat rejectingWorld sampleMessages [sampleTool] (state0 ollama))
       = Inr (callsResult [] [mkToolCall (JStr ''find_on_page'') (JObj [(''query'', JStr ''price'')])])"
    by (simp add: parsedCall_def orElse_def)
  have sys: "\<lparr> role = ''system'', content = ''Be concise.'' \<rparr> \<in> set sampleMessages"
    by (simp add: sampleMessages_def)
  have rs: "role \<lparr> role = ''system'', content = ''Be concise.'' \<rparr> = ''system''" by simp
  note q = t [THEN conjunct2, THEN conjunct1, rule_format, OF sys, unfolded if_P [OF rs]]
  have st: "sampleTool \<in> set [sampleTool]" by simp
  note r3 = q [THEN conjunct2, THEN conjunct2, THEN conjunct2, THEN conjunct2, rule_format, OF st]
  have c5: "backend unavailableWorld (length (fetchLog (state0 ollama))) sampleMessages [sampleTool] = Response 503 None"
    by (simp add: unavailableWorld_def world0_def)
  note u = llmChat_fallback_on_400 [OF a b c5, THEN conjunct2]
  have r4: "fst (llmChat unavailableWorld sampleMessages [sampleTool] (state0 ollama)) = Inl ''Error: Ollama error: 503''"
    using u by (simp add: isOk_def showNat.simps [of 503] showNat.simps [of 50] showNat.simps [of 5] digit_def)
  have r5: "length (fetchLog (snd (llmChat unavailableWorld sampleMessages [sampleTool] (state0 ollama)))) = 1"
    using u by (simp add: f)
  show ?thesis using a b c r1 r2 r3 c5 r4 r5 by simp
qed

text \<open>
  C7 as stated fails for a client error other than 400: on status 404 the gateway throws
  after the first request and sends no second one.
\<close>

theorem llmChat_no_retry_on_404:
  "provider (state0 ollama) = ollama \<and> [sampleTool] \<noteq> []
   \<and> backend notFoundWorld (length (fetchLog (state0 ollama))) sampleMessages [sampleTool] = Response 404 None
   \<and> fst (llmChat notFoundWorld sampleMessages [sampleTool] (state0 ollama)) = Inl ''Error: Ollama error: 404''
   \<and> fetchLog (snd (llmChat notFoundWorld sampleMessages [sampleTool] (state0 ollama)))
       = [(sampleMessages, [sampleTool])]"
  by (simp add: llmChat_def ollamaChat_def sendChat_def isOk_def state0_def notFoundWorld_def world0_def
         showNat.simps [of 404] showNat.simps [of 40] showNat.simps [of 4] digit_def)

section \<open>What the dispatch leaves unchanged\<close>

lemma ensurePermission_frame:
  assumes "ensurePermission w tabId pt orig r sv st = (g, st')"
  shows "chatLog st' = chatLog st \<and> fetchLog st' = fetchLog st
       \<and> toolCallState st' = toolCallState st \<and> dataEntries st' = dataEntries st
       \<and> provider st' = provider st \<and> mcpLog st' = mcpLog st \<and> tabsCreated st' = tabsCreated st
       \<and> length (auditEvents st) \<le> length (auditEvents st')"
  using assms
  by (auto simp: ensurePermission_def addAuditEvent_def Let_def
           split: option.splits dialog_reply.splits bool.splits if_splits)

lemma routeBuiltIn_frame:
  assumes "routeBuiltIn w toolName args st = (r, st')"
  shows "chatLog st' = chatLog st \<and> fetchLog st' = fetchLog st
       \<and> toolCallState st' = toolCallState st \<and> dataEntries st' = dataEntries st
       \<and> provider st' = provider st \<and> mcpLog st' = mcpLog st
       \<and> auditEvents st' = auditEvents st \<and> permissions st' = permissions st"
  using assms
  by (auto simp: routeBuiltIn_def sendToTab_def Let_def
           split: option.splits if_splits json.splits)

lemma callMcpTool_frame:
  assumes "callMcpTool w url toolName args st = (r, st')"
  shows "chatLog st' = chatLog st \<and> fetchLog st' = fetchLog st
       \<and> toolCallState st' = toolCallState st \<and> dataEntries st' = dataEntries st
       \<and> provider st' = provider st \<and> tabLog st' = tabLog st \<and> tabsCreated st' = tabsCreated st
       \<and> auditEvents st' = auditEvents st \<and> permissions st' = permissions st
       \<and> mcpLog st' = mcpLog st @ [(url, toolName, args)]"
  using assms
  by (auto simp: callMcpTool_def Let_def split: reply.splits)

lemma executeToolCall_frame:
  assumes "executeToolCall w toolName args tabId st = (r, st')"
  shows "chatLog st' = chatLog st \<and> fetchLog st' = fetchLog st
       \<and> toolCallState st' = toolCallState st \<and> dataEntries st' = dataEntries st
       \<and> provider st' = provider st
       \<and> length (auditEvents st) \<le> length (auditEvents st')"
proof (cases "getToolDef toolName")
  case None
  show ?thesis
  proof (cases "find (\<lambda>server. srv_enabled server \<and> hasTool toolName server) (mcpServers w)")
    case n: None
    with None assms show ?thesis by (simp add: executeToolCall_def)
  next
    case (Some server)
    obtain r1 st1 where c: "callMcpTool w (srv_url server) toolName args st = (r1, st1)"
      by (cases "callMcpTool w (srv_url server) toolName args st")
    from callMcpTool_frame [OF c] assms None Some c show ?thesis
      by (auto simp: executeToolCall_def split: reply.splits)
  qed
next
  case (Some builtIn)
  obtain g st1 where e: "ensurePermission w tabId (requiredPermission builtIn) (tabOrigin w tabId)
                  (''Tool '' @ [CHR 0x22] @ toolName @ [CHR 0x22] @ '': '' @ pt_description builtIn)
                  (if isWriteAction builtIn then ''medium'' else ''low'') st = (g, st1)"
    by (cases "ensurePermission w tabId (requiredPermission builtIn) (tabOrigin w tabId)
                  (''Tool '' @ [CHR 0x22] @ toolName @ [CHR 0x22] @ '': '' @ pt_description builtIn)
                  (if isWriteAction builtIn then ''medium'' else ''low'') st")
  note f = ensurePermission_frame [OF e]
  show ?thesis
  proof (cases g)
    case False
    with assms Some e f show ?thesis by (simp add: executeToolCall_def)
  next
    case True
    with assms Some e have "routeBuiltIn w toolName args st1 = (r, st')"
      by (simp add: executeToolCall_def)
    from routeBuiltIn_frame [OF this] f show ?thesis by simp
  qed
qed

lemma processToolCall_frame:
  assumes "processToolCall w tabId i tc messages st = (r, st')"
  shows "chatLog st' = chatLog st \<and> fetchLog st' = fetchLog st \<and> provider st' = provider st
       \<and> running (toolCallState st') = running (toolCallState st)
       \<and> error (toolCallState st') = error (toolCallState st)
       \<and> finalAnswer (toolCallState st') = finalAnswer (toolCallState st)
       \<and> length (auditEvents st) \<le> length (auditEvents st')"
proof -
  let ?nameV = "orElse (field (field (Some tc) ''function'') ''name'') (JStr [])"
  let ?args = "orElse (field (field (Some tc) ''function'') ''arguments'') (JObj [])"
  let ?st1 = "addAuditEvent w
                  (mkEvent ''tool_call_start'' ''openlens''
                     [(''tool'', ?nameV), (''args'', ?args), (''iteration'', JNum (int (i + 1)))]
                     None None (locationOf st)) st"
  obtain r2 st2 where e: "executeToolCall w (jsString w ?nameV) ?args tabId ?st1 = (r2, st2)"
    by (cases "executeToolCall w (jsString w ?nameV) ?args tabId ?st1")
  note f = executeToolCall_frame [OF e]
  show ?thesis
    using assms e f
    by (auto simp: processToolCall_def Let_def addAuditEvent_def addDataEntry_def pushCall_def
             split: reply.splits option.splits)
qed

lemma processToolCalls_frame:
  "processToolCalls w tabId i tcs messages st = (r, st') \<Longrightarrow>
     chatLog st' = chatLog st \<and> fetchLog st' = fetchLog st \<and> provider st' = provider st
       \<and> running (toolCallState st') = running (toolCallState st)
       \<and> error (toolCallState st') = error (toolCallState st)
       \<and> finalAnswer (toolCallState st') = finalAnswer (toolCallState st)
       \<and> length (auditEvents st) \<le> length (auditEvents st')"
proof (induction tcs arbitrary: messages st)
  case Nil
  then show ?case by simp
next
  case (Cons tc tcs)
  obtain r1 st1 where p: "processToolCall w tabId i tc messages st = (r1, st1)"
    by (cases "processToolCall w tabId i tc messages st")
  note f = processToolCall_frame [OF p]
  show ?case
  proof (cases r1)
    case (Inl e)
    with Cons.prems p f show ?thesis by simp
  next
    case (Inr m1)
    with Cons.prems p have "processToolCalls w tabId i tcs m1 st1 = (r, st')" by simp
    from Cons.IH [OF this] f show ?thesis by simp
  qed
qed

lemma llmChat_frame:
  assumes "llmChat w messages tools st = (r, st')"
  shows "chatLog st' = chatLog st @ [(messages, tools)] \<and> auditEvents st' = auditEvents st
       \<and> toolCallState st' = toolCallState st \<and> provider st' = provider st
       \<and> dataEntries st' = dataEntries st \<and> tabLog st' = tabLog st
       \<and> permissions st' = permissions st \<and> mcpLog st' = mcpLog st"
  using assms
  by (auto simp: llmChat_def ollamaChat_def cloudChat_def sendChat_def Let_def
           split: ProviderType.splits http_reply.splits option.splits if_splits)

section \<open>The iterations of the tool-call loop\<close>

lemma toolLoop_cases [consumes 0, case_names stop chatFail answer toolFail continue]:
  obtains
    (stop) "\<not> i < maxIterations"
      "toolLoop w tools tabId i messages st = finish exhaustedAnswer st"
  | (chatFail) e st1 where "i < maxIterations"
      "llmChat w messages tools st = (Inl e, st1)"
      "toolLoop w tools tabId i messages st = failWith e st1"
  | (answer) response st1 where "i < maxIterations"
      "llmChat w messages tools st = (Inr response, st1)"
      "toolLoop w tools tabId i messages st
         = finalPrompt w ''tool_call'' (i + 1) (cr_content response) st1"
      "cr_toolCalls response = None \<or> cr_toolCalls response = Some []"
  | (toolFail) response st1 tcs e st2 where "i < maxIterations"
      "llmChat w messages tools st = (Inr response, st1)"
      "processToolCalls w tabId i tcs messages st1 = (Inl e, st2)"
      "toolLoop w tools tabId i messages st = failWith e st2"
      "cr_toolCalls response = Some tcs"
  | (continue) response st1 tcs messages2 st2 where "i < maxIterations"
      "llmChat w messages tools st = (Inr response, st1)"
      "processToolCalls w tabId i tcs messages st1 = (Inr messages2, st2)"
      "toolLoop w tools tabId i messages st = toolLoop w tools tabId (Suc i) messages2 st2"
      "cr_toolCalls response = Some tcs"
proof (cases "i < maxIterations")
  case False
  then show ?thesis using stop by (simp add: toolLoop.simps [of w tools tabId i])
next
  case lt: True
  obtain r st1 where c: "llmChat w messages tools st = (r, st1)"
    by (cases "llmChat w messages tools st")
  show ?thesis
  proof (cases r)
    case (Inl e)
    with lt c show ?thesis using chatFail by (simp add: toolLoop.simps [of w tools tabId i])
  next
    case (Inr response)
    show ?thesis
    proof (cases "cr_toolCalls response")
      case None
      with lt c Inr show ?thesis using answer by (simp add: toolLoop.simps [of w tools tabId i])
    next
      case (Some tcs)
      show ?thesis
      proof (cases tcs)
        case Nil
        with lt c Inr Some show ?thesis using answer
          by (simp add: toolLoop.simps [of w tools tabId i])
      next
        case (Cons tc tcs')
        obtain r2 st2 where p: "processToolCalls w tabId i tcs messages st1 = (r2, st2)"
          by (cases "processToolCalls w tabId i tcs messages st1")
        show ?thesis
        proof (cases r2)
          case (Inl e)
          with lt c Inr Some Cons p show ?thesis using toolFail [of response st1 tcs e st2]
            by (simp add: toolLoop.simps [of w tools tabId i])
        next
          case r: (Inr m2)
          with lt c Inr Some Cons p show ?thesis using continue [of response st1 tcs m2 st2]
            by (simp add: toolLoop.simps [of w tools tabId i])
        qed
      qed
    qed
  qed
qed

lemma toolChats_llmChat:
  "llmChat w messages tools st = (r, st1) \<Longrightarrow> tools \<noteq> [] \<Longrightarrow> toolChats st1 = Suc (toolChats st)"
  by (drule llmChat_frame) (simp add: toolChats_def)

lemma toolChats_llmChat_none:
  "llmChat w messages [] st = (r, st1) \<Longrightarrow> toolChats st1 = toolChats st"
  by (drule llmChat_frame) (simp add: toolChats_def)

lemma toolChats_processToolCalls:
  "processToolCalls w tabId i tcs messages st = (r, st') \<Longrightarrow> toolChats st' = toolChats st"
  by (drule processToolCalls_frame) (simp add: toolChats_def)

lemma toolLoop_stops: "\<not> running (toolCallState (toolLoop w tools tabId i messages st))"
proof (induction "maxIterations - i" arbitrary: i messages st)
  case 0
  then show ?case
    by (cases rule: toolLoop_cases [of i w tools tabId messages st])
       (simp_all add: finish_def failWith_def finalPrompt_def addAuditEvent_def)
next
  case (Suc n)
  show ?case
  proof (cases rule: toolLoop_cases [of i w tools tabId messages st])
    case (continue response st1 tcs messages2 st2)
    from Suc(2) continue(1) have "n = maxIterations - Suc i" by simp
    from Suc(1) [OF this] continue(4) show ?thesis by simp
  qed (simp_all add: finish_def failWith_def finalPrompt_def addAuditEvent_def)
qed

lemma toolLoop_bound:
  assumes "tools \<noteq> []"
  shows "toolChats (toolLoop w tools tabId i messages st) \<le> toolChats st + (maxIterations - i)"
proof (induction "maxIterations - i" arbitrary: i messages st)
  case 0
  then show ?case
    by (cases rule: toolLoop_cases [of i w tools tabId messages st])
       (simp_all add: finish_def toolChats_def)
next
  case (Suc n)
  show ?case
  proof (cases rule: toolLoop_cases [of i w tools tabId messages st])
    case stop
    then show ?thesis by (simp add: finish_def toolChats_def)
  next
    case (chatFail e st1)
    from toolChats_llmChat [OF chatFail(2) assms] chatFail(1,3) show ?thesis
      by (simp add: failWith_def toolChats_def)
  next
    case (answer response st1)
    from toolChats_llmChat [OF answer(2) assms] answer(1,3) show ?thesis
      by (simp add: finalPrompt_def finish_def addAuditEvent_def toolChats_def)
  next
    case (toolFail response st1 tcs e st2)
    from toolChats_llmChat [OF toolFail(2) assms] toolChats_processToolCalls [OF toolFail(3)]
      toolFail(1,4)
    show ?thesis by (simp add: failWith_def toolChats_def)
  next
    case (continue response st1 tcs messages2 st2)
    from Suc(2) continue(1) have "n = maxIterations - Suc i" by simp
    from Suc(1) [OF this, of messages2 st2]
      toolChats_llmChat [OF continue(2) assms] toolChats_processToolCalls [OF continue(3)]
      continue(1,4)
    show ?thesis by simp
  qed
qed

lemma set_drop_mono: "n \<le> m \<Longrightarrow> set (drop m xs) \<subseteq> set (drop n xs)"
  by (rule set_drop_subset_set_drop)

lemma toolLoop_exhausted:
  assumes tools: "tools \<noteq> []"
      and noerr: "error (toolCallState (toolLoop w tools tabId i messages st)) = None"
      and noans: "\<forall>ev \<in> set (eventsSince (length (auditEvents st)) (toolLoop w tools tabId i messages st)).
                    ae_type ev \<noteq> ''llm_prompt''"
  shows "finalAnswer (toolCallState (toolLoop w tools tabId i messages st)) = exhaustedAnswer
       \<and> toolChats (toolLoop w tools tabId i messages st) = toolChats st + (maxIterations - i)"
  using noerr noans
proof (induction "maxIterations - i" arbitrary: i messages st)
  case 0
  show ?case
  proof (cases rule: toolLoop_cases [of i w tools tabId messages st])
    case stop
    then show ?thesis by (simp add: finish_def toolChats_def)
  qed (use 0 in simp_all)
next
  case (Suc n)
  show ?case
  proof (cases rule: toolLoop_cases [of i w tools tabId messages st])
    case stop
    then show ?thesis by (simp add: finish_def toolChats_def)
  next
    case (chatFail e st1)
    with Suc(3) show ?thesis by (simp add: failWith_def)
  next
    case (toolFail response st1 tcs e st2)
    with Suc(3) show ?thesis by (simp add: failWith_def)
  next
    case (answer response st1)
    from llmChat_frame [OF answer(2)] have "auditEvents st1 = auditEvents st" by simp
    with answer(3) Suc(4) show ?thesis
      by (simp add: eventsSince_def finalPrompt_def finish_def addAuditEvent_def mkEvent_def)
  next
    case (continue response st1 tcs messages2 st2)
    from Suc(2) continue(1) have n: "n = maxIterations - Suc i" by simp
    from llmChat_frame [OF continue(2)] processToolCalls_frame [OF continue(3)]
    have le: "length (auditEvents st) \<le> length (auditEvents st2)" by simp
    have e: "error (toolCallState (toolLoop w tools tabId (Suc i) messages2 st2)) = None"
      using Suc(3) continue(4) by simp
    have a: "\<forall>ev \<in> set (eventsSince (length (auditEvents st2)) (toolLoop w tools tabId (Suc i) messages2 st2)).
                 ae_type ev \<noteq> ''llm_prompt''"
      using Suc(4) continue(4)
        set_drop_mono [OF le, of "auditEvents (toolLoop w tools tabId (Suc i) messages2 st2)"]
      unfolding eventsSince_def by (simp add: subset_iff)
    from Suc(1) [OF n e a]
      toolChats_llmChat [OF continue(2) tools] toolChats_processToolCalls [OF continue(3)]
      continue(1,4)
    show ?thesis by simp
  qed
qed

section \<open>The tool-call task\<close>

lemma preRead_frame:
  assumes "preRead w tabId st = (pc, st')"
  shows "chatLog st' = chatLog st \<and> auditEvents st' = auditEvents st
       \<and> running (toolCallState st') = running (toolCallState st)
       \<and> error (toolCallState st') = error (toolCallState st)
       \<and> finalAnswer (toolCallState st') = finalAnswer (toolCallState st)
       \<and> permissions st' = permissions st \<and> provider st' = provider st
       \<and> tabLog st' = tabLog st @ [READ_PAGE (JNum 2000)]"
  using assms
  by (auto simp: preRead_def sendToTab_def Let_def pushCall_def addDataEntry_def
           split: reply.splits option.splits if_splits)

lemma directAnswer_frame:
  assumes "directAnswer w intent pc st = (answered, st')"
  shows "toolChats st' = toolChats st
       \<and> (answered \<longrightarrow> \<not> running (toolCallState st')
             \<and> (\<exists>ev. auditEvents st' = auditEvents st @ [ev] \<and> ae_type ev = ''llm_prompt''))
       \<and> (\<not> answered \<longrightarrow> auditEvents st' = auditEvents st \<and> toolCallState st' = toolCallState st)"
proof -
  let ?ms = "[\<lparr> role = ''system'',
                content = ''You are a helpful browser AI assistant analyzing a web page. Answer the user's question directly and concisely using the page content below.''
                  @ [CHR 0x0A, CHR 0x0A] @ ''Page content:'' @ [CHR 0x0A] @ pc \<rparr>,
              \<lparr> role = ''user'', content = intent \<rparr>]"
  obtain r st1 where c: "llmChat w ?ms [] st = (r, st1)" by (cases "llmChat w ?ms [] st")
  note f = llmChat_frame [OF c] and t = toolChats_llmChat_none [OF c]
  show ?thesis
    using assms c f t
    by (auto simp: directAnswer_def Let_def finalPrompt_def finish_def addAuditEvent_def mkEvent_def
          toolChats_def split: sum.splits if_splits)
qed

lemma tools_nonempty: "getAllToolSchemas ms \<noteq> []"
  by (simp add: getAllToolSchemas_def getBuiltInToolSchemas_def PAGE_TOOLS_def)

lemma toolPass_step:
  assumes "toolPass w tools tabId i messages st = Some (messages2, st2)" and "i < maxIterations"
  shows "toolLoop w tools tabId i messages st = toolLoop w tools tabId (Suc i) messages2 st2"
  using assms
  by (auto simp: toolPass_def toolLoop.simps [of w tools tabId i]
           split: prod.splits sum.splits option.splits list.splits)

lemma toolPass_error:
  assumes "toolPass w tools tabId i messages st = Some (messages2, st2)"
  shows "error (toolCallState st2) = error (toolCallState st)"
proof -
  from assms obtain response st1 tcs where
    c: "llmChat w messages tools st = (Inr response, st1)"
    and p: "processToolCalls w tabId i tcs messages st1 = (Inr messages2, st2)"
    by (auto simp: toolPass_def simp del: processToolCalls.simps
             split: prod.splits sum.splits option.splits list.splits)
  from llmChat_frame [OF c] processToolCalls_frame [OF p] show ?thesis by simp
qed

lemma toolPasses_exhaust:
  "toolPasses w tools tabId n i messages st = Some (messages', st') \<Longrightarrow> i + n = maxIterations \<Longrightarrow>
     toolLoop w tools tabId i messages st = finish exhaustedAnswer st'
     \<and> error (toolCallState st') = error (toolCallState st)"
proof (induction n arbitrary: i messages st)
  case 0
  then show ?case by (simp add: toolLoop.simps [of w tools tabId maxIterations])
next
  case (Suc n)
  from Suc.prems(1) obtain m2 s2 where
    p: "toolPass w tools tabId i messages st = Some (m2, s2)"
    and r: "toolPasses w tools tabId n (Suc i) m2 s2 = Some (messages', st')"
    by (auto split: option.splits)
  from Suc.prems(2) have lt: "i < maxIterations" and n: "Suc i + n = maxIterations" by simp_all
  from Suc.IH [OF r n] toolPass_step [OF p lt] toolPass_error [OF p]
  show ?case by simp
qed

lemma loopEntry_Some:
  assumes "loopEntry w intent tabId st = Some (messages, st2)"
  shows "runToolCallLoop w intent tabId st
           = toolLoop w (getAllToolSchemas (getAllMcpTools w)) tabId 0 messages st2
       \<and> error (toolCallState st2) = None"
proof -
  let ?st0 = "st\<lparr> toolCallState := \<lparr> running = True, calls = [], finalAnswer = [], error = None \<rparr> \<rparr>"
  obtain pc st1 where p: "preRead w tabId ?st0 = (pc, st1)" by (cases "preRead w tabId ?st0")
  from preRead_frame [OF p] have e1: "error (toolCallState st1) = None" by simp
  obtain answered s2 where d: "(if pc \<noteq> [] then directAnswer w intent pc st1 else (False, st1)) = (answered, s2)"
    by (cases "if pc \<noteq> [] then directAnswer w intent pc st1 else (False, st1)")
  from assms p d have a: "\<not> answered" and m: "messages = [\<lparr> role = ''system'', content = systemPrompt pc \<rparr>,
                      \<lparr> role = ''user'', content = intent \<rparr>]" and s: "s2 = st2"
    by (auto simp: loopEntry_def split: bool.splits)
  have e2: "error (toolCallState s2) = None"
  proof (cases "pc \<noteq> []")
    case True
    with d have "directAnswer w intent pc st1 = (answered, s2)" by simp
    from directAnswer_frame [OF this] a e1 show ?thesis by simp
  next
    case False
    with d e1 show ?thesis by auto
  qed
  from p d a m s have "runToolCallLoop w intent tabId st
           = toolLoop w (getAllToolSchemas (getAllMcpTools w)) tabId 0 messages st2"
    by (simp add: runToolCallLoop_def Let_def)
  with e2 s show ?thesis by simp
qed

lemma exhausted_not_error:
  assumes "loopEntry w intent tabId st = Some (messages, st2)"
      and "toolPasses w (getAllToolSchemas (getAllMcpTools w)) tabId maxIterations 0 messages st2
             = Some (messages', st')"
  shows "runToolCallLoop w intent tabId st = finish exhaustedAnswer st'
       \<and> error (toolCallState (runToolCallLoop w intent tabId st)) = None
       \<and> finalAnswer (toolCallState (runToolCallLoop w intent tabId st)) = exhaustedAnswer
       \<and> \<not> running (toolCallState (runToolCallLoop w intent tabId st))"
  using loopEntry_Some [OF assms(1)] toolPasses_exhaust [OF assms(2)]
  by (simp add: finish_def)

lemma runToolCallLoop_bounded:
  "\<not> running (toolCallState (runToolCallLoop w intent tabId st))
   \<and> toolChats (runToolCallLoop w intent tabId st) \<le> toolChats st + maxIterations
   \<and> maxIterations = 5
   \<and> (error (toolCallState (runToolCallLoop w intent tabId st)) = None
        \<and> (\<forall>ev \<in> set (eventsSince (length (auditEvents st)) (runToolCallLoop w intent tabId st)).
               ae_type ev \<noteq> ''llm_prompt'')
      \<longrightarrow> finalAnswer (toolCallState (runToolCallLoop w intent tabId st)) = exhaustedAnswer
        \<and> toolChats (runToolCallLoop w intent tabId st) = toolChats st + maxIterations)"
proof -
  let ?st0 = "st\<lparr> toolCallState := \<lparr> running = True, calls = [], finalAnswer = [], error = None \<rparr> \<rparr>"
  let ?tools = "getAllToolSchemas (getAllMcpTools w)"
  obtain pc st1 where p: "preRead w tabId ?st0 = (pc, st1)" by (cases "preRead w tabId ?st0")
  note pf = preRead_frame [OF p]
  have tc1: "toolChats st1 = toolChats st" using pf by (simp add: toolChats_def)
  have ae1: "auditEvents st1 = auditEvents st" using pf by simp
  obtain answered st2 where d: "(if pc \<noteq> [] then directAnswer w intent pc st1 else (False, st1)) = (answered, st2)"
    by (cases "if pc \<noteq> [] then directAnswer w intent pc st1 else (False, st1)")
  have df: "toolChats st2 = toolChats st
       \<and> (answered \<longrightarrow> \<not> running (toolCallState st2)
             \<and> (\<exists>ev. auditEvents st2 = auditEvents st @ [ev] \<and> ae_type ev = ''llm_prompt''))
       \<and> (\<not> answered \<longrightarrow> auditEvents st2 = auditEvents st)"
  proof (cases "pc \<noteq> []")
    case True
    with d have "directAnswer w intent pc st1 = (answered, st2)" by simp
    from directAnswer_frame [OF this] tc1 ae1 show ?thesis by simp
  next
    case False
    with d tc1 ae1 show ?thesis by auto
  qed
  let ?ms = "[\<lparr> role = ''system'', content = systemPrompt pc \<rparr>, \<lparr> role = ''user'', content = intent \<rparr>]"
  show ?thesis
  proof (cases answered)
    case True
    with p d have r: "runToolCallLoop w intent tabId st = st2"
      by (simp add: runToolCallLoop_def Let_def)
    from df True obtain ev where ev: "auditEvents st2 = auditEvents st @ [ev]" "ae_type ev = ''llm_prompt''"
      by blast
    show ?thesis using r df True ev by (simp add: maxIterations_def eventsSince_def)
  next
    case False
    with p d have r: "runToolCallLoop w intent tabId st = toolLoop w ?tools tabId 0 ?ms st2"
      by (simp add: runToolCallLoop_def Let_def)
    from df False have ae2: "auditEvents st2 = auditEvents st" and tc2: "toolChats st2 = toolChats st"
      by simp_all
    have b: "toolChats (toolLoop w ?tools tabId 0 ?ms st2) \<le> toolChats st + maxIterations"
      using toolLoop_bound [OF tools_nonempty, where w=w and tabId=tabId and i=0 and messages="?ms" and st=st2 and ms1="getAllMcpTools w"] tc2 by simp
    have e: "finalAnswer (toolCallState (toolLoop w ?tools tabId 0 ?ms st2)) = exhaustedAnswer
        \<and> toolChats (toolLoop w ?tools tabId 0 ?ms st2) = toolChats st + maxIterations"
      if "error (toolCallState (toolLoop w ?tools tabId 0 ?ms st2)) = None"
        and "\<forall>ev \<in> set (eventsSince (length (auditEvents st)) (toolLoop w ?tools tabId 0 ?ms st2)).
               ae_type ev \<noteq> ''llm_prompt''"
      using toolLoop_exhausted [OF tools_nonempty, where w=w and tabId=tabId and i=0 and messages="?ms" and st=st2 and ms1="getAllMcpTools w"] that ae2 tc2 by simp
    show ?thesis
      unfolding r using toolLoop_stops b e by (simp add: maxIterations_def)
  qed
qed


text \<open>
  C9. For every world, hence for every sequence of backend replies, the tool-call task
  returns with running = false, and its loop calls the gateway at most five times. When it
  ends without an error and without a tool-free reply (no final llm_prompt event was
  recorded), all five iterations ran and the final answer is the fixed sentinel. And when
  five passes in a row each got a reply with tool calls and processed them without an
  exception, the task ends in the state after the fifth pass with the sentinel as final
  answer, running = false and no error set.
\<close>

theorem runToolCallLoop_terminates_within_cap:
  "\<not> running (toolCallState (runToolCallLoop w intent tabId st))
   \<and> toolChats (runToolCallLoop w intent tabId st) \<le> toolChats st + maxIterations
   \<and> maxIterations = 5
   \<and> (error (toolCallState (runToolCallLoop w intent tabId st)) = None
        \<and> (\<forall>ev \<in> set (eventsSince (length (auditEvents st)) (runToolCallLoop w intent tabId st)).
               ae_type ev \<noteq> ''llm_prompt'')
      \<longrightarrow> finalAnswer (toolCallState (runToolCallLoop w intent tabId st)) = exhaustedAnswer
        \<and> toolChats (runToolCallLoop w intent tabId st) = toolChats st + maxIterations)
   \<and> (\<forall>messages st2 messages' st'.
         loopEntry w intent tabId st = Some (messages, st2)
         \<and> toolPasses w (getAllToolSchemas (getAllMcpTools w)) tabId maxIterations 0 messages st2
             = Some (messages', st') \<longrightarrow>
         runToolCallLoop w intent tabId st = finish exhaustedAnswer st'
       \<and> error (toolCallState (runToolCallLoop w intent tabId st)) = None
       \<and> finalAnswer (toolCallState (runToolCallLoop w intent tabId st)) = exhaustedAnswer
       \<and> \<not> running (toolCallState (runToolCallLoop w intent tabId st)))"
proof -
  have "\<forall>messages st2 messages' st'.
         loopEntry w intent tabId st = Some (messages, st2)
         \<and> toolPasses w (getAllToolSchemas (getAllMcpTools w)) tabId maxIterations 0 messages st2
             = Some (messages', st') \<longrightarrow>
         runToolCallLoop w intent tabId st = finish exhaustedAnswer st'
       \<and> error (toolCallState (runToolCallLoop w intent tabId st)) = None
       \<and> finalAnswer (toolCallState (runToolCallLoop w intent tabId st)) = exhaustedAnswer
       \<and> \<not> running (toolCallState (runToolCallLoop w intent tabId st))"
    using exhausted_not_error by blast
  with runToolCallLoop_bounded [of w intent tabId st] show ?thesis by simp
qed

lemma insisting_chat:
  assumes "provider st = ollama" "tools \<noteq> []"
  shows "llmChat insistingWorld ms tools st
           = (Inr (callsResult [] [mkToolCall (JStr ''summon'') (JObj [])]),
              st\<lparr> chatLog := chatLog st @ [(ms, tools)], fetchLog := fetchLog st @ [(ms, tools)] \<rparr>)"
  using assms
  by (simp add: llmChat_def ollamaChat_def sendChat_def insistingWorld_def world0_def isOk_def)

lemma insisting_calls:
  "\<exists>ms' st'. processToolCalls insistingWorld tabId i [mkToolCall (JStr ''summon'') (JObj [])] ms st
                 = (Inr ms', st')
     \<and> provider st' = provider st
     \<and> error (toolCallState st') = error (toolCallState st)
     \<and> map ae_type (auditEvents st')
         = map ae_type (auditEvents st) @ [''tool_call_start'', ''tool_call_result'']"
  by (simp add: processToolCall_def executeToolCall_def getToolDef_def PAGE_TOOLS_def mkTool_def
        insistingWorld_def world0_def mkToolCall_def orElse_def jsString_def Let_def failure_def
        addAuditEvent_def addDataEntry_def pushCall_def mkEvent_def)

lemma insisting_loop:
  assumes "tools \<noteq> []"
  shows "provider st = ollama \<Longrightarrow>
         error (toolCallState (toolLoop insistingWorld tools tabId i ms st)) = error (toolCallState st)
       \<and> (\<exists>xs. map ae_type (auditEvents (toolLoop insistingWorld tools tabId i ms st))
                  = map ae_type (auditEvents st) @ xs \<and> ''llm_prompt'' \<notin> set xs)"
proof (induction "maxIterations - i" arbitrary: i ms st)
  case 0
  then show ?case
    by (cases rule: toolLoop_cases [of i insistingWorld tools tabId ms st])
       (simp_all add: finish_def)
next
  case (Suc n)
  note ch = insisting_chat [OF Suc(3) assms, of ms]
  show ?case
  proof (cases rule: toolLoop_cases [of i insistingWorld tools tabId ms st])
    case stop
    then show ?thesis by (simp add: finish_def)
  next
    case (chatFail e st1)
    with ch show ?thesis by simp
  next
    case (answer response st1)
    with ch show ?thesis by (auto simp: callsResult_def)
  next
    case (toolFail response st1 tcs e st2)
    from toolFail(2,5) ch have "tcs = [mkToolCall (JStr ''summon'') (JObj [])]"
      by (auto simp: callsResult_def)
    with toolFail(3) insisting_calls [of tabId i ms st1] show ?thesis by auto
  next
    case (continue response st1 tcs messages2 st2)
    from continue(2,5) ch have tcs: "tcs = [mkToolCall (JStr ''summon'') (JObj [])]"
      and st1: "st1 = st\<lparr> chatLog := chatLog st @ [(ms, tools)], fetchLog := fetchLog st @ [(ms, tools)] \<rparr>"
      by (auto simp: callsResult_def)
    from continue(3) tcs insisting_calls [of tabId i ms st1]
    have p: "provider st2 = provider st1" "error (toolCallState st2) = error (toolCallState st1)"
      "map ae_type (auditEvents st2) = map ae_type (auditEvents st1) @ [''tool_call_start'', ''tool_call_result'']"
      by auto
    from Suc(2) continue(1) have n: "n = maxIterations - Suc i" by simp
    have pr: "provider st2 = ollama" using p(1) st1 Suc(3) by simp
    from Suc(1) [OF n pr, of messages2]
    obtain xs where ih:
      "error (toolCallState (toolLoop insistingWorld tools tabId (Suc i) messages2 st2)) = error (toolCallState st2)"
      "map ae_type (auditEvents (toolLoop insistingWorld tools tabId (Suc i) messages2 st2))
         = map ae_type (auditEvents st2) @ xs" "''llm_prompt'' \<notin> set xs"
      by blast
    have "map ae_type (auditEvents (toolLoop insistingWorld tools tabId i ms st))
            = map ae_type (auditEvents st) @ ([''tool_call_start'', ''tool_call_result''] @ xs)
          \<and> ''llm_prompt'' \<notin> set ([''tool_call_start'', ''tool_call_result''] @ xs)"
      using ih(2,3) p(3) st1 continue(4) by simp
    then have "\<exists>ys. map ae_type (auditEvents (toolLoop insistingWorld tools tabId i ms st))
            = map ae_type (auditEvents st) @ ys \<and> ''llm_prompt'' \<notin> set ys"
      by blast
    then show ?thesis using ih(1) p(2) st1 continue(4) by simp
  qed
qed

lemma insisting_passes:
  assumes "tools \<noteq> []"
  shows "provider st = ollama \<Longrightarrow>
         \<exists>messages' st'. toolPasses insistingWorld tools tabId n i ms st = Some (messages', st')"
proof (induction n arbitrary: i ms st)
  case 0
  then show ?case by simp
next
  case (Suc n)
  note ch = insisting_chat [OF Suc.prems assms, of ms]
  let ?st1 = "st\<lparr> chatLog := chatLog st @ [(ms, tools)], fetchLog := fetchLog st @ [(ms, tools)] \<rparr>"
  from insisting_calls [of tabId i ms ?st1] obtain m2 s2 where
    p: "processToolCalls insistingWorld tabId i [mkToolCall (JStr ''summon'') (JObj [])] ms ?st1 = (Inr m2, s2)"
    and pr: "provider s2 = provider ?st1" by blast
  have tp: "toolPass insistingWorld tools tabId i ms st = Some (m2, s2)"
    using ch p by (simp add: toolPass_def callsResult_def del: processToolCalls.simps)
  have "provider s2 = ollama" using pr Suc.prems by simp
  from Suc.IH [OF this, of "Suc i" m2] tp show ?case by simp
qed

theorem runToolCallLoop_terminates_within_cap_witness:
  "error (toolCallState (runToolCallLoop insistingWorld ''What is this page?'' 1 (state0 ollama))) = None
   \<and> finalAnswer (toolCallState (runToolCallLoop insistingWorld ''What is this page?'' 1 (state0 ollama)))
       = ''(Reached maximum tool call iterations)''
   \<and> toolChats (runToolCallLoop insistingWorld ''What is this page?'' 1 (state0 ollama)) = 5"
proof -
  let ?q = "''What is this page?''"
  let ?st2 = "(state0 ollama)\<lparr> toolCallState := \<lparr> running = True, calls = [], finalAnswer = [], error = None \<rparr>,
                                tabLog := [READ_PAGE (JNum 2000)] \<rparr>"
  let ?tools = "getAllToolSchemas (getAllMcpTools insistingWorld)"
  let ?ms = "[\<lparr> role = ''system'', content = systemPrompt [] \<rparr>, \<lparr> role = ''user'', content = ?q \<rparr>]"
  have r: "runToolCallLoop insistingWorld ?q 1 (state0 ollama) = toolLoop insistingWorld ?tools 1 0 ?ms ?st2"
    by (simp add: runToolCallLoop_def preRead_def sendToTab_def insistingWorld_def world0_def
          state0_def truthyOpt_def Let_def)
  have pr: "provider ?st2 = ollama" by (simp add: state0_def)
  from insisting_loop [OF tools_nonempty pr, of "getAllMcpTools insistingWorld" 1 0 ?ms]
  obtain xs where l: "error (toolCallState (toolLoop insistingWorld ?tools 1 0 ?ms ?st2)) = None"
    "map ae_type (auditEvents (toolLoop insistingWorld ?tools 1 0 ?ms ?st2)) = xs"
    "''llm_prompt'' \<notin> set xs"
    by (auto simp: state0_def)
  have le: "loopEntry insistingWorld ?q 1 (state0 ollama) = Some (?ms, ?st2)"
    by (simp add: loopEntry_def preRead_def sendToTab_def insistingWorld_def world0_def
          state0_def truthyOpt_def Let_def)
  from insisting_passes [OF tools_nonempty pr, of "getAllMcpTools insistingWorld" 1 maxIterations 0 ?ms]
  obtain messages' st' where
    ps: "toolPasses insistingWorld ?tools 1 maxIterations 0 ?ms ?st2 = Some (messages', st')" by blast
  note x = runToolCallLoop_terminates_within_cap [of insistingWorld ?q 1 "state0 ollama",
      THEN conjunct2, THEN conjunct2, THEN conjunct2, THEN conjunct2, rule_format, OF conjI [OF le ps]]
  have e: "error (toolCallState (runToolCallLoop insistingWorld ?q 1 (state0 ollama))) = None"
    by (rule x [THEN conjunct2, THEN conjunct1])
  have m: "map ae_type (eventsSince (length (auditEvents (state0 ollama)))
            (runToolCallLoop insistingWorld ?q 1 (state0 ollama))) = xs"
    using l(2) r by (simp add: eventsSince_def state0_def)
  have sub: "ae_type ev \<in> set xs"
    if "ev \<in> set (eventsSince (length (auditEvents (state0 ollama)))
            (runToolCallLoop insistingWorld ?q 1 (state0 ollama)))" for ev
  proof -
    from that have "ae_type ev \<in> set (map ae_type (eventsSince (length (auditEvents (state0 ollama)))
            (runToolCallLoop insistingWorld ?q 1 (state0 ollama))))"
      by (simp only: set_map) (rule imageI)
    then show ?thesis by (simp only: m)
  qed
  have a: "\<forall>ev \<in> set (eventsSince (length (auditEvents (state0 ollama)))
            (runToolCallLoop insistingWorld ?q 1 (state0 ollama))). ae_type ev \<noteq> ''llm_prompt''"
  proof
    fix ev
    assume "ev \<in> set (eventsSince (length (auditEvents (state0 ollama)))
            (runToolCallLoop insistingWorld ?q 1 (state0 ollama)))"
    from sub [OF this] l(3) show "ae_type ev \<noteq> ''llm_prompt''" by metis
  qed
  have t0: "toolChats (state0 ollama) = 0" by (simp add: toolChats_def state0_def)
  from runToolCallLoop_terminates_within_cap [of insistingWorld ?q 1 "state0 ollama"] e a t0
  show ?thesis by (simp add: exhaustedAnswer_def maxIterations_def)
qed

section \<open>Permission and the session ledger\<close>







text \<open>
  C2, at the input where the code departs from it: under a hosted provider and with no
  grant stored, the tool-call task sends the read command to the content host, records it
  as a read_page call with a data entry, and answers from the page text; the permission
  list is still empty and no permission event was recorded.
\<close>

theorem preread_sent_without_permission:
  "permissions (state0 openai) = []
   \<and> tabLog (runToolCallLoop readableWorld ''What is my balance?'' 1 (state0 openai))
       = [READ_PAGE (JNum 2000)]
   \<and> permissions (runToolCallLoop readableWorld ''What is my balance?'' 1 (state0 openai)) = []
   \<and> map ae_type (auditEvents (runToolCallLoop readableWorld ''What is my balance?'' 1 (state0 openai)))
       = [''llm_prompt'']
   \<and> map tc_toolName (calls (toolCallState
         (runToolCallLoop readableWorld ''What is my balance?'' 1 (state0 openai)))) = [''read_page'']
   \<and> map de_dataType (dataEntries (runToolCallLoop readableWorld ''What is my balance?'' 1 (state0 openai)))
       = [''page_content'']
   \<and> finalAnswer (toolCallState (runToolCallLoop readableWorld ''What is my balance?'' 1 (state0 openai)))
       = ''Your balance is 120 EUR.''"
  by (simp add: runToolCallLoop_def preRead_def sendToTab_def readableWorld_def world0_def state0_def
        truthyOpt_def jsString_def Let_def directAnswer_def llmChat_def cloudChat_def sendChat_def
        isOk_def textResult_def trim_def isSpace_def toolMarker_def finalPrompt_def finish_def
        addAuditEvent_def addDataEntry_def pushCall_def mkEntry_def mkEvent_def)

section \<open>The cross-origin monitor\<close>

lemma jsSet_fold:
  "set (foldl (\<lambda>acc x. if x \<in> set acc then acc else acc @ [x]) acc xs) = set acc \<union> set xs
   \<and> (distinct acc \<longrightarrow> distinct (foldl (\<lambda>acc x. if x \<in> set acc then acc else acc @ [x]) acc xs))"
  by (induction xs arbitrary: acc) auto


lemma distinct_jsSet: "distinct (jsSet xs)"
  using jsSet_fold [of "[]" xs] by (simp add: jsSet_def)

lemma warning_names_origin:
  assumes "x \<in> set origins"
  shows "includesStr (crossOriginWarning origins sensitive p) x"
proof -
  from join_member [OF assms] obtain pre post where j: "join '' + '' origins = pre @ x @ post" by blast
  have "\<exists>a b. crossOriginWarning origins sensitive p = a @ x @ b"
  proof (cases sensitive)
    case True
    then have "crossOriginWarning origins sensitive p
        = (''Data from '' @ pre) @ x @ (post @ '' is merging in the AI context. This includes sensitive data.'' @ cloudNote p)"
      by (simp add: crossOriginWarning_def j)
    then show ?thesis by blast
  next
    case False
    then have "crossOriginWarning origins sensitive p
        = (''Data from '' @ pre) @ x @ (post @ '' is merging in the AI context.'' @ cloudNote p)"
      by (simp add: crossOriginWarning_def j)
    then show ?thesis by blast
  qed
  then obtain a b where "crossOriginWarning origins sensitive p = a @ x @ b" by blast
  then show ?thesis by (simp only: includesStr_append)
qed


















section \<open>Sensitivity of the data entries\<close>

lemma processToolCall_entries:
  assumes "processToolCall w tabId i tc messages st = (r, st')"
  shows "\<exists>es. dataEntries st' = dataEntries st @ es \<and> (\<forall>e \<in> set es. de_sensitivity e = low)"
proof -
  let ?nameV = "orElse (field (field (Some tc) ''function'') ''name'') (JStr [])"
  let ?args = "orElse (field (field (Some tc) ''function'') ''arguments'') (JObj [])"
  let ?st1 = "addAuditEvent w
                  (mkEvent ''tool_call_start'' ''openlens''
                     [(''tool'', ?nameV), (''args'', ?args), (''iteration'', JNum (int (i + 1)))]
                     None None (locationOf st)) st"
  obtain r2 st2 where e: "executeToolCall w (jsString w ?nameV) ?args tabId ?st1 = (r2, st2)"
    by (cases "executeToolCall w (jsString w ?nameV) ?args tabId ?st1")
  from executeToolCall_frame [OF e] have d: "dataEntries st2 = dataEntries st"
    by (simp add: addAuditEvent_def)
  show ?thesis
    using assms e d
    by (auto simp: processToolCall_def Let_def addAuditEvent_def addDataEntry_def pushCall_def mkEntry_def
             split: reply.splits option.splits)
qed

lemma processToolCalls_entries:
  "processToolCalls w tabId i tcs messages st = (r, st') \<Longrightarrow>
     \<exists>es. dataEntries st' = dataEntries st @ es \<and> (\<forall>e \<in> set es. de_sensitivity e = low)"
proof (induction tcs arbitrary: messages st)
  case Nil
  then show ?case by simp
next
  case (Cons tc tcs)
  obtain r1 st1 where p: "processToolCall w tabId i tc messages st = (r1, st1)"
    by (cases "processToolCall w tabId i tc messages st")
  from processToolCall_entries [OF p] obtain es1 where
    e1: "dataEntries st1 = dataEntries st @ es1" "\<forall>e \<in> set es1. de_sensitivity e = low" by blast
  show ?case
  proof (cases r1)
    case (Inl e)
    with Cons.prems p e1 show ?thesis by auto
  next
    case (Inr m1)
    with Cons.prems p have "processToolCalls w tabId i tcs m1 st1 = (r, st')" by simp
    from Cons.IH [OF this] obtain es2 where
      e2: "dataEntries st' = dataEntries st1 @ es2" "\<forall>e \<in> set es2. de_sensitivity e = low" by blast
    have "dataEntries st' = dataEntries st @ (es1 @ es2) \<and> (\<forall>e \<in> set (es1 @ es2). de_sensitivity e = low)"
      using e1 e2 by auto
    then show ?thesis by blast
  qed
qed

lemma toolLoop_entries:
  "\<exists>es. dataEntries (toolLoop w tools tabId i messages st) = dataEntries st @ es
        \<and> (\<forall>e \<in> set es. de_sensitivity e = low)"
proof (induction "maxIterations - i" arbitrary: i messages st)
  case 0
  then show ?case
    by (cases rule: toolLoop_cases [of i w tools tabId messages st])
       (simp_all add: finish_def)
next
  case (Suc n)
  show ?case
  proof (cases rule: toolLoop_cases [of i w tools tabId messages st])
    case stop
    then show ?thesis by (simp add: finish_def)
  next
    case (chatFail e st1)
    from llmChat_frame [OF chatFail(2)] chatFail(3) show ?thesis by (simp add: failWith_def)
  next
    case (answer response st1)
    from llmChat_frame [OF answer(2)] answer(3) show ?thesis
      by (simp add: finalPrompt_def finish_def addAuditEvent_def)
  next
    case (toolFail response st1 tcs e st2)
    from llmChat_frame [OF toolFail(2)] processToolCalls_entries [OF toolFail(3)] toolFail(4)
    show ?thesis by (simp add: failWith_def)
  next
    case (continue response st1 tcs messages2 st2)
    from Suc(2) continue(1) have n: "n = maxIterations - Suc i" by simp
    from llmChat_frame [OF continue(2)] processToolCalls_entries [OF continue(3)]
    obtain es1 where e1: "dataEntries st2 = dataEntries st @ es1" "\<forall>e \<in> set es1. de_sensitivity e = low"
      by auto
    from Suc(1) [OF n, of messages2 st2] obtain es2 where
      e2: "dataEntries (toolLoop w tools tabId (Suc i) messages2 st2) = dataEntries st2 @ es2"
          "\<forall>e \<in> set es2. de_sensitivity e = low" by blast
    have "dataEntries (toolLoop w tools tabId i messages st) = dataEntries st @ (es1 @ es2)
          \<and> (\<forall>e \<in> set (es1 @ es2). de_sensitivity e = low)"
      using e1 e2 continue(4) by auto
    then show ?thesis by blast
  qed
qed

lemma preRead_entries:
  assumes "preRead w tabId st = (pc, st')"
  shows "\<exists>es. dataEntries st' = dataEntries st @ es \<and> (\<forall>e \<in> set es. de_sensitivity e = low)"
  using assms
  by (auto simp: preRead_def sendToTab_def Let_def pushCall_def addDataEntry_def mkEntry_def
           split: reply.splits option.splits if_splits)

lemma directAnswer_entries:
  assumes "directAnswer w intent pc st = (answered, st')"
  shows "dataEntries st' = dataEntries st"
proof -
  let ?ms = "[\<lparr> role = ''system'',
                content = ''You are a helpful browser AI assistant analyzing a web page. Answer the user's question directly and concisely using the page content below.''
                  @ [CHR 0x0A, CHR 0x0A] @ ''Page content:'' @ [CHR 0x0A] @ pc \<rparr>,
              \<lparr> role = ''user'', content = intent \<rparr>]"
  obtain r st1 where c: "llmChat w ?ms [] st = (r, st1)" by (cases "llmChat w ?ms [] st")
  from llmChat_frame [OF c] assms c show ?thesis
    by (auto simp: directAnswer_def Let_def finalPrompt_def finish_def addAuditEvent_def
             split: sum.splits if_splits)
qed

lemma runToolCallLoop_entries:
  "\<exists>es. dataEntries (runToolCallLoop w intent tabId st) = dataEntries st @ es
        \<and> (\<forall>e \<in> set es. de_sensitivity e = low)"
proof -
  let ?st0 = "st\<lparr> toolCallState := \<lparr> running = True, calls = [], finalAnswer = [], error = None \<rparr> \<rparr>"
  let ?tools = "getAllToolSchemas (getAllMcpTools w)"
  obtain pc st1 where p: "preRead w tabId ?st0 = (pc, st1)" by (cases "preRead w tabId ?st0")
  from preRead_entries [OF p] obtain es1 where
    e1: "dataEntries st1 = dataEntries st @ es1" "\<forall>e \<in> set es1. de_sensitivity e = low" by auto
  obtain answered st2 where d: "(if pc \<noteq> [] then directAnswer w intent pc st1 else (False, st1)) = (answered, st2)"
    by (cases "if pc \<noteq> [] then directAnswer w intent pc st1 else (False, st1)")
  have e2: "dataEntries st2 = dataEntries st1"
  proof (cases "pc \<noteq> []")
    case True
    with d have "directAnswer w intent pc st1 = (answered, st2)" by simp
    from directAnswer_entries [OF this] show ?thesis .
  next
    case False
    with d show ?thesis by auto
  qed
  let ?ms = "[\<lparr> role = ''system'', content = systemPrompt pc \<rparr>, \<lparr> role = ''user'', content = intent \<rparr>]"
  show ?thesis
  proof (cases answered)
    case True
    with p d have "runToolCallLoop w intent tabId st = st2" by (simp add: runToolCallLoop_def Let_def)
    with e1 e2 show ?thesis by auto
  next
    case False
    with p d have r: "runToolCallLoop w intent tabId st = toolLoop w ?tools tabId 0 ?ms st2"
      by (simp add: runToolCallLoop_def Let_def)
    from toolLoop_entries [of w ?tools tabId 0 ?ms st2] obtain es3 where
      e3: "dataEntries (toolLoop w ?tools tabId 0 ?ms st2) = dataEntries st2 @ es3"
          "\<forall>e \<in> set es3. de_sensitivity e = low" by blast
    have "dataEntries (runToolCallLoop w intent tabId st) = dataEntries st @ (es1 @ es3)
          \<and> (\<forall>e \<in> set (es1 @ es3). de_sensitivity e = low)"
      using r e1 e2 e3 by auto
    then show ?thesis by blast
  qed
qed

lemma setStep_entries [simp]: "dataEntries (setStep i s st) = dataEntries st"
  by (simp add: setStep_def)

lemma runStepTool_entries:
  assumes "runStepTool w step st = (r, st')"
  shows "dataEntries st' = dataEntries st"
  using assms
  by (auto simp: runStepTool_def sendToTab_def Let_def split: option.splits if_splits json.splits)

lemma analyseStep_entries:
  assumes "analyseStep w intent step tr st = (out, st')"
  shows "dataEntries st' = dataEntries st"
proof (cases "model st \<noteq> []")
  case False
  with assms show ?thesis by (simp add: analyseStep_def)
next
  case True
  let ?prev = "map (\<lambda>s. step_title s @ '': '' @ (case step_llmOutput s of Some t \<Rightarrow> t | None \<Rightarrow> []))
                 (filter (\<lambda>s. step_status s = ''completed''
                              \<and> (case step_llmOutput s of Some t \<Rightarrow> t \<noteq> [] | None \<Rightarrow> False))
                    (case currentPlan st of Some plan \<Rightarrow> plan_steps plan | None \<Rightarrow> []))"
  let ?ser = "stringify w (resultDataOf tr)"
  let ?pd = "(if step_tool step = ''read_page'' \<or> step_tool step = ''extract_data''
                then (case field (Some tr) ''summary'' of
                        Some v \<Rightarrow> if truthy v then jsString w v else take 3000 ?ser
                      | None \<Rightarrow> take 3000 ?ser)
                else take 1000 ?ser)"
  let ?ms = "[\<lparr> role = ''system'',
                      content = ''You are a helpful AI assistant analyzing real browser page content. Be concise and specific.'' \<rparr>,
                    \<lparr> role = ''user'', content = stepPrompt intent step ?pd ?prev \<rparr>]"
  obtain r st1 where c: "llmChat w ?ms [] st = (r, st1)" by (cases "llmChat w ?ms [] st")
  from llmChat_frame [OF c] assms c True show ?thesis
    by (auto simp: analyseStep_def Let_def addAuditEvent_def split: sum.splits)
qed

lemma trackStepData_entries:
  "dataEntries (trackStepData w orig step tr st)
     = dataEntries st @
         [\<lparr> de_origin = orig, de_originType = ''page_content'', de_dataType = step_tool step,
            de_tokenCount = ceilDiv4 (length (stringify w (resultDataOf tr))),
            de_sensitivity = stepSensitivity tr, de_entryMethod = ''tool_call'',
            de_timestamp = clock w \<rparr>]"
  by (simp add: trackStepData_def Let_def addDataEntry_def addAuditEvent_def mkEntry_def)

lemma stepSensitivity_range: "stepSensitivity tr = low \<or> stepSensitivity tr = medium"
  by (simp add: stepSensitivity_def split: option.splits json.splits)

lemma finishStep_entries: "dataEntries (snd (finishStep w i orig step st)) = dataEntries st"
  by (simp add: finishStep_def addAuditEvent_def)

lemma executeStep_entries:
  "\<exists>es. dataEntries (snd (executeStep w stepIdx tabId st)) = dataEntries st @ es
        \<and> (\<forall>e \<in> set es. de_sensitivity e = low \<or> de_sensitivity e = medium)"
proof (cases "currentPlan st")
  case None
  then show ?thesis by (simp add: executeStep_def)
next
  case (Some plan)
  show ?thesis
  proof (cases "stepIdx \<ge> length (plan_steps plan)")
    case True
    with Some show ?thesis by (simp add: executeStep_def)
  next
    case False
    let ?step = "(plan_steps plan ! stepIdx)\<lparr> step_status := ''running'' \<rparr>"
    let ?st0 = "setStep stepIdx ?step st"
    let ?orig = "planOrigin w plan"
    obtain granted st1 where p1: "ensurePermission w tabId (step_requiredPermission ?step) ?orig
                       (''Step '' @ [CHR 0x22] @ step_title ?step @ [CHR 0x22] @ '': ''
                          @ step_description ?step)
                       (if step_isWriteAction ?step then ''medium'' else ''low'') ?st0 = (granted, st1)"
      by (cases "ensurePermission w tabId (step_requiredPermission ?step) ?orig
                       (''Step '' @ [CHR 0x22] @ step_title ?step @ [CHR 0x22] @ '': ''
                          @ step_description ?step)
                       (if step_isWriteAction ?step then ''medium'' else ''low'') ?st0")
    from ensurePermission_frame [OF p1] have d1: "dataEntries st1 = dataEntries st" by simp
    show ?thesis
    proof (cases granted)
      case g: False
      with Some False p1 d1 show ?thesis by (simp add: executeStep_def Let_def)
    next
      case g: True
      obtain cloudGranted st2 where p2: "(if provider st1 \<noteq> ollama
                             then ensurePermission w tabId data_send ?orig
                                    (''Send page content to '' @ providerName (provider st1)
                                       @ '' for analysis'') ''high'' st1
                             else (True, st1)) = (cloudGranted, st2)"
        by (cases "(if provider st1 \<noteq> ollama
                             then ensurePermission w tabId data_send ?orig
                                    (''Send page content to '' @ providerName (provider st1)
                                       @ '' for analysis'') ''high'' st1
                             else (True, st1))")
      have d2: "dataEntries st2 = dataEntries st"
      proof (cases "provider st1 \<noteq> ollama")
        case True
        with p2 have "ensurePermission w tabId data_send ?orig
                                    (''Send page content to '' @ providerName (provider st1)
                                       @ '' for analysis'') ''high'' st1 = (cloudGranted, st2)" by simp
        from ensurePermission_frame [OF this] d1 show ?thesis by simp
      next
        case False
        with p2 d1 show ?thesis by auto
      qed
      show ?thesis
      proof (cases cloudGranted)
        case c: False
        with Some False p1 g p2 d2 show ?thesis by (simp add: executeStep_def Let_def)
      next
        case c: True
        obtain r st3 where t: "runStepTool w ?step st2 = (r, st3)" by (cases "runStepTool w ?step st2")
        from runStepTool_entries [OF t] d2 have d3: "dataEntries st3 = dataEntries st" by simp
        show ?thesis
        proof (cases r)
          case (Throws e)
          with Some False p1 g p2 c t d3 show ?thesis
            by (simp add: executeStep_def Let_def finishStep_entries)
        next
          case (Returns toolResult)
          show ?thesis
          proof (cases "truthyOpt (field toolResult ''success'')")
            case f: False
            with Some False p1 g p2 c t d3 Returns show ?thesis
              by (simp add: executeStep_def Let_def)
          next
            case s: True
            then obtain tr where tr: "toolResult = Some tr" by (cases toolResult) (simp_all add: truthyOpt_def)
            let ?st4 = "trackStepData w ?orig ?step tr st3"
            let ?tracked = "?step\<lparr> step_result := Some (resultDataOf tr),
                                 step_tokens := ceilDiv4 (length (stringify w (resultDataOf tr))),
                                 step_origin := Some ?orig,
                                 step_sensitivity := Some (stepSensitivity tr) \<rparr>"
            obtain out st5 where a: "analyseStep w (plan_intent plan) ?tracked tr (setStep stepIdx ?tracked ?st4) = (out, st5)"
              by (cases "analyseStep w (plan_intent plan) ?tracked tr (setStep stepIdx ?tracked ?st4)")
            from analyseStep_entries [OF a] have d5: "dataEntries st5 = dataEntries ?st4" by simp
            have e: "dataEntries (snd (executeStep w stepIdx tabId st)) = dataEntries st5"
              using Some False p1 g p2 c t Returns s tr a
              by (simp add: executeStep_def Let_def finishStep_entries)
            have "dataEntries (snd (executeStep w stepIdx tabId st))
                    = dataEntries st @ [\<lparr> de_origin = ?orig, de_originType = ''page_content'',
                         de_dataType = step_tool ?step,
                         de_tokenCount = ceilDiv4 (length (stringify w (resultDataOf tr))),
                         de_sensitivity = stepSensitivity tr, de_entryMethod = ''tool_call'',
                         de_timestamp = clock w \<rparr>]"
              using e d5 d3 by (simp add: trackStepData_entries)
            moreover have "stepSensitivity tr = low \<or> stepSensitivity tr = medium"
              by (rule stepSensitivity_range)
            ultimately show ?thesis by auto
          qed
        qed
      qed
    qed
  qed
qed

lemma secret_high: "classifySensitivity secretJson = high"
  by (simp add: classifySensitivity_def testPatterns_def HIGH_PATTERNS_def secretJson_def
        toLowerAscii_def includesStr_def indexOf_def)

lemma stepSensitivity_medium:
  "stepSensitivity tr = medium
     \<longleftrightarrow> (\<exists>n. field (field (field (Some tr) ''context'') ''structuredData'') ''emailCount'' = Some (JNum n) \<and> n > 0)"
  by (auto simp: stepSensitivity_def split: option.splits json.splits)

text \<open>
  C4. The claim asks for the sensitivity of an entry to be the pattern classification of
  the serialized content that produced it. The tool-call loop does not classify: the page
  answers a read with a text that mentions a password, the classification of the
  serialized result is high, and the entry created for the result, sized from that very
  text, has sensitivity low.
\<close>

theorem tool_result_entry_is_low:
  "contentHost secretWorld 0 (READ_PAGE (JNum 2000)) = Returns (Some secretReply)
   \<and> stringify secretWorld secretReply = secretJson
   \<and> classifySensitivity (stringify secretWorld secretReply) = high
   \<and> map de_sensitivity (dataEntries (snd (processToolCall secretWorld 1 0
         (mkToolCall (JStr ''read_page'') (JObj [])) [] (state0 ollama)))) = [low]
   \<and> map de_tokenCount (dataEntries (snd (processToolCall secretWorld 1 0
         (mkToolCall (JStr ''read_page'') (JObj [])) [] (state0 ollama)))) = [ceilDiv4 (length secretJson)]"
proof -
  have a: "contentHost secretWorld 0 (READ_PAGE (JNum 2000)) = Returns (Some secretReply)"
    "stringify secretWorld secretReply = secretJson"
    by (simp_all add: secretWorld_def)
  have p: "dataEntries (snd (processToolCall secretWorld 1 0
         (mkToolCall (JStr ''read_page'') (JObj [])) [] (state0 ollama)))
      = [\<lparr> de_origin = ''openlens'', de_originType = ''local'', de_dataType = ''tool:read_page'',
           de_tokenCount = ceilDiv4 (length secretJson), de_sensitivity = low,
           de_entryMethod = ''tool_call'', de_timestamp = 1000 \<rparr>]"
    by (simp add: processToolCall_def executeToolCall_def getToolDef_def PAGE_TOOLS_def mkTool_def
          ensurePermission_def checkPermission_def tabOrigin_def routeBuiltIn_def sendToTab_def
          secretWorld_def world0_def state0_def mkToolCall_def orElse_def jsString_def Let_def
          addAuditEvent_def addDataEntry_def pushCall_def mkEntry_def mkEvent_def locationOf_def
          grantPermission_def)
  show ?thesis using a p secret_high by simp
qed

end
